theory Spec2Isabelle
  imports Main "HOL-Library.Sublist"
begin

section \<open>Python values and exceptions\<close>

text \<open>
  The agent (\<^verbatim>\<open>agent.py\<close>) handles whatever \<^verbatim>\<open>json.loads\<close> returns: a plan and its
  steps are untyped Python objects. They are modelled by the datatype \<open>json\<close>. A Python
  \<^verbatim>\<open>str\<close> is a \<open>string\<close> holding the UTF-8 bytes of the text; every string operation
  of the program (substring test and split with ASCII markers, concatenation, equality,
  the test for a non-blank output) gives the same answer on the bytes as on the code
  points. A dictionary is an association list in insertion order with distinct keys.
  A float is kept as the decimal \<open>m * 10 ^ e\<close> it was read from (\<open>JFloat m e\<close>): the
  program only ever asks whether it is zero.
\<close>

datatype json =
    JNull
  | JBool bool
  | JInt int
  | JFloat int int
  | JNaN
  | JInf bool
  | JStr string
  | JArr "json list"
  | JObj "(string \<times> json) list"

text \<open>
  The exceptions the program can meet. \<open>LibError cls msg\<close> is an exception raised by a
  library or by the operating system (class name and \<^verbatim>\<open>str(e)\<close>); like the others it is
  a subclass of \<^verbatim>\<open>Exception\<close>. Asynchronous interrupts are outside the model.
\<close>

datatype exn =
    KeyError string
  | IndexError
  | TypeError string
  | AttributeError string
  | LibError string string

definition quote :: string where
  "quote = [CHR 0x27]"

fun str_exn :: "exn \<Rightarrow> string" where
  "str_exn (KeyError k) = quote @ k @ quote"
| "str_exn IndexError = ''list index out of range''"
| "str_exn (TypeError m) = m"
| "str_exn (AttributeError m) = m"
| "str_exn (LibError c m) = m"

fun py_type :: "json \<Rightarrow> string" where
  "py_type JNull = ''NoneType''"
| "py_type (JBool b) = ''bool''"
| "py_type (JInt n) = ''int''"
| "py_type (JFloat m e) = ''float''"
| "py_type JNaN = ''float''"
| "py_type (JInf s) = ''float''"
| "py_type (JStr s) = ''str''"
| "py_type (JArr xs) = ''list''"
| "py_type (JObj kvs) = ''dict''"

text \<open>
  Truth value of an object (\<^verbatim>\<open>if x\<close>, \<^verbatim>\<open>not x\<close>). The double nearest to \<open>m * 10 ^ e\<close> is
  zero when \<open>m = 0\<close> or when the decimal is at most \<open>2 ^ -1075\<close> in magnitude.
\<close>

fun truthy :: "json \<Rightarrow> bool" where
  "truthy JNull = False"
| "truthy (JBool b) = b"
| "truthy (JInt n) = (n \<noteq> 0)"
| "truthy (JFloat m e) =
     (m \<noteq> 0 \<and> (0 \<le> e \<or> 10 ^ nat (- e) < \<bar>m\<bar> * 2 ^ 1075))"
| "truthy JNaN = True"
| "truthy (JInf s) = True"
| "truthy (JStr s) = (s \<noteq> [])"
| "truthy (JArr xs) = (xs \<noteq> [])"
| "truthy (JObj kvs) = (kvs \<noteq> [])"

text \<open>\<^verbatim>\<open>obj[key]\<close> with a string key.\<close>

fun py_getitem :: "json \<Rightarrow> string \<Rightarrow> exn + json" where
  "py_getitem (JObj kvs) k =
     (case map_of kvs k of None \<Rightarrow> Inl (KeyError k) | Some v \<Rightarrow> Inr v)"
| "py_getitem (JArr xs) k = Inl (TypeError ''list indices must be integers or slices, not str'')"
| "py_getitem (JStr s) k = Inl (TypeError (''string indices must be integers, not '' @ quote @ ''str'' @ quote))"
| "py_getitem v k = Inl (TypeError (quote @ py_type v @ quote @ '' object is not subscriptable''))"

text \<open>\<^verbatim>\<open>obj.get(key, default)\<close>: only a dictionary has the method.\<close>

fun py_get :: "json \<Rightarrow> string \<Rightarrow> json \<Rightarrow> exn + json" where
  "py_get (JObj kvs) k d = (case map_of kvs k of None \<Rightarrow> Inr d | Some v \<Rightarrow> Inr v)"
| "py_get v k d =
     Inl (AttributeError (quote @ py_type v @ quote @ '' object has no attribute '' @ quote @ ''get'' @ quote))"

text \<open>
  The characters of a text: each byte that is not a UTF-8 continuation byte (80 to BF)
  starts a character, and the continuation bytes after it belong to it.
\<close>

fun characters :: "string \<Rightarrow> string list" where
  "characters [] = []"
| "characters (c # cs) =
     (case characters cs of
        [] \<Rightarrow> [[c]]
      | g # gs \<Rightarrow>
          (case g of
             [] \<Rightarrow> [c] # gs
           | b # bs \<Rightarrow>
               if 0x80 \<le> (of_char b :: nat) \<and> (of_char b :: nat) < 0xC0 then (c # g) # gs
               else [c] # g # gs))"

text \<open>
  \<^verbatim>\<open>for x in obj\<close>: a list gives its items, a dictionary its keys, a string its
  characters; nothing else that JSON produces can be iterated.
\<close>

fun py_iter :: "json \<Rightarrow> exn + json list" where
  "py_iter (JArr xs) = Inr xs"
| "py_iter (JObj kvs) = Inr (map (\<lambda>kv. JStr (fst kv)) kvs)"
| "py_iter (JStr s) = Inr (map JStr (characters s))"
| "py_iter v = Inl (TypeError (quote @ py_type v @ quote @ '' object is not iterable''))"

section \<open>String operations\<close>

text \<open>\<^verbatim>\<open>sub in s\<close> for strings: \<open>sub\<close> occurs in \<open>s\<close>.\<close>

fun contains :: "string \<Rightarrow> string \<Rightarrow> bool" where
  "contains sub [] = (sub = [])"
| "contains sub (c # cs) = (prefix sub (c # cs) \<or> contains sub cs)"

text \<open>
  \<^verbatim>\<open>s.split(sep)\<close> for a non-empty separator: the pieces between the occurrences of
  \<open>sep\<close>, found from the left and never overlapping. The program only splits at the two
  fence markers.
\<close>

fun split_from :: "string \<Rightarrow> string \<Rightarrow> string list" where
  "split_from sep [] = [[]]"
| "split_from sep (c # cs) =
     (if prefix sep (c # cs) then [] # split_from sep (drop (length sep - 1) cs)
      else (case split_from sep cs of
              [] \<Rightarrow> [[c]]
            | p # ps \<Rightarrow> (c # p) # ps))"

text \<open>\<^verbatim>\<open>xs[i]\<close> on a list, for an index that is not negative.\<close>

definition py_index :: "'a list \<Rightarrow> nat \<Rightarrow> exn + 'a" where
  "py_index xs i = (if i < length xs then Inr (xs ! i) else Inl IndexError)"

section \<open>The plan extractor\<close>

definition fence :: string where
  "fence = ''```''"

definition json_fence :: string where
  "json_fence = ''```json''"

text \<open>
  Lines 73 to 76 of \<^verbatim>\<open>get_plan\<close> (and 169 to 172 of \<^verbatim>\<open>refine_plan\<close>): the text handed to
  the JSON decoder.
  \<^verbatim>\<open>
  if "```json" in response_text:
      response_text = response_text.split("```json")[1].split("```")[0]
  elif "```" in response_text:
      response_text = response_text.split("```")[1].split("```")[0]
  \<close>
\<close>

definition select_text :: "string \<Rightarrow> exn + string" where
  "select_text response_text =
     (if contains json_fence response_text then
        (case py_index (split_from json_fence response_text) 1 of
           Inl e \<Rightarrow> Inl e
         | Inr part \<Rightarrow> py_index (split_from fence part) 0)
      else if contains fence response_text then
        (case py_index (split_from fence response_text) 1 of
           Inl e \<Rightarrow> Inl e
         | Inr part \<Rightarrow> py_index (split_from fence part) 0)
      else Inr response_text)"

text \<open>
  \<^verbatim>\<open>json.loads\<close> belongs to the standard library: it is the parameter \<open>loads\<close>. On a
  text it returns a value (\<open>Decoded\<close>), raises \<^verbatim>\<open>JSONDecodeError\<close> (\<open>DecodeError\<close>), or
  raises something else, as it does on a document nested beyond the interpreter's
  recursion limit or holding an integer with more digits than the interpreter converts
  (\<open>DecoderRaised\<close>).
\<close>

datatype decoded = Decoded json | DecodeError | DecoderRaised exn

text \<open>
  The body of the \<^verbatim>\<open>try\<close> of \<^verbatim>\<open>get_plan\<close> and \<^verbatim>\<open>refine_plan\<close>: the text is selected and
  decoded. \<open>Inl e\<close> is an exception of the selection, \<open>Inr r\<close> what the decoder did with
  the selected text.
\<close>

definition parse_plan :: "(string \<Rightarrow> decoded) \<Rightarrow> string \<Rightarrow> exn + decoded" where
  "parse_plan loads response_text =
     (case select_text response_text of
        Inl e \<Rightarrow> Inl e
      | Inr selected \<Rightarrow> Inr (loads selected))"

section \<open>A JSON decoder\<close>

text \<open>
  To run the extractor on concrete responses the parameter \<open>loads\<close> needs a value. The
  decoder below follows the grammar \<^verbatim>\<open>json.loads\<close> accepts in its default (strict) mode:
  RFC 8259 with the literals \<^verbatim>\<open>NaN\<close>, \<^verbatim>\<open>Infinity\<close> and \<^verbatim>\<open>-Infinity\<close>, blanks being
  space, tab, line feed and carriage return, no control character inside a string, a
  repeated key keeping its first position and its last value, and no byte order mark.
  It is a scanner (a state machine over the characters) followed by a pushdown parser
  over the tokens, both by structural recursion. It stands for the library on the
  documents the interpreter decodes within its limits; it never answers
  \<open>DecoderRaised\<close>. Theorems about all responses are stated for an arbitrary \<open>loads\<close>;
  \<open>json_loads\<close> only evaluates examples.
\<close>

datatype token = TLBrace | TRBrace | TLBrack | TRBrack | TComma | TColon | TValue json

text \<open>
  The scanner's states: between tokens; inside a string (with the characters read so
  far, last first), after a backslash, inside a \<^verbatim>\<open>\u\<close> escape (digits read and their
  value), and the same three after a high surrogate that may pair with a following
  \<^verbatim>\<open>\u\<close> escape; inside a literal (the characters still expected); and the positions
  inside a number (sign, integer digits, fraction digits with their count, exponent).
\<close>

datatype lex_state =
    LStart
  | LStr string
  | LEsc string
  | LUni string nat nat
  | LHi string nat
  | LHiEsc string nat
  | LHiUni string nat nat nat
  | LLit string json
  | LMinus
  | LZero bool
  | LInt bool nat
  | LFracStart bool nat
  | LFrac bool nat nat
  | LExpStart bool nat nat
  | LExpSign bool nat nat bool
  | LExp bool nat nat bool nat

definition is_ws :: "char \<Rightarrow> bool" where
  "is_ws c = (c = CHR '' '' \<or> c = CHR 0x09 \<or> c = CHR 0x0A \<or> c = CHR 0x0D)"

definition digit_val :: "char \<Rightarrow> nat option" where
  "digit_val c = (let n = of_char c in if 48 \<le> n \<and> n \<le> (57::nat) then Some (n - 48) else None)"

definition hex_val :: "char \<Rightarrow> nat option" where
  "hex_val c =
     (let n = of_char c in
      if 48 \<le> n \<and> n \<le> (57::nat) then Some (n - 48)
      else if 65 \<le> n \<and> n \<le> 70 then Some (n - 55)
      else if 97 \<le> n \<and> n \<le> 102 then Some (n - 87)
      else None)"

definition utf8 :: "nat \<Rightarrow> string" where
  "utf8 n =
     (if n < 0x80 then [char_of n]
      else if n < 0x800 then [char_of (0xC0 + n div 0x40), char_of (0x80 + n mod 0x40)]
      else if n < 0x10000 then
        [char_of (0xE0 + n div 0x1000), char_of (0x80 + n div 0x40 mod 0x40),
         char_of (0x80 + n mod 0x40)]
      else
        [char_of (0xF0 + n div 0x40000), char_of (0x80 + n div 0x1000 mod 0x40),
         char_of (0x80 + n div 0x40 mod 0x40), char_of (0x80 + n mod 0x40)])"

definition signed :: "bool \<Rightarrow> nat \<Rightarrow> int" where
  "signed neg n = (if neg then - int n else int n)"

definition lex_start :: "char \<Rightarrow> (token list \<times> lex_state) option" where
  "lex_start c =
     (if is_ws c then Some ([], LStart)
      else if c = CHR ''{'' then Some ([TLBrace], LStart)
      else if c = CHR ''}'' then Some ([TRBrace], LStart)
      else if c = CHR ''['' then Some ([TLBrack], LStart)
      else if c = CHR '']'' then Some ([TRBrack], LStart)
      else if c = CHR '','' then Some ([TComma], LStart)
      else if c = CHR '':'' then Some ([TColon], LStart)
      else if c = CHR 0x22 then Some ([], LStr [])
      else if c = CHR ''t'' then Some ([], LLit ''rue'' (JBool True))
      else if c = CHR ''f'' then Some ([], LLit ''alse'' (JBool False))
      else if c = CHR ''n'' then Some ([], LLit ''ull'' JNull)
      else if c = CHR ''N'' then Some ([], LLit ''aN'' JNaN)
      else if c = CHR ''I'' then Some ([], LLit ''nfinity'' (JInf False))
      else if c = CHR ''-'' then Some ([], LMinus)
      else if c = CHR ''0'' then Some ([], LZero False)
      else (case digit_val c of Some d \<Rightarrow> Some ([], LInt False d) | None \<Rightarrow> None))"

definition lex_emit :: "json \<Rightarrow> char \<Rightarrow> (token list \<times> lex_state) option" where
  "lex_emit v c = (case lex_start c of None \<Rightarrow> None | Some (ts, s) \<Rightarrow> Some (TValue v # ts, s))"

definition str_char :: "string \<Rightarrow> char \<Rightarrow> (token list \<times> lex_state) option" where
  "str_char acc c =
     (if c = CHR 0x22 then Some ([TValue (JStr (rev acc))], LStart)
      else if c = CHR 0x5C then Some ([], LEsc acc)
      else if (of_char c :: nat) < 0x20 then None
      else Some ([], LStr (c # acc)))"

definition esc_char :: "string \<Rightarrow> char \<Rightarrow> (token list \<times> lex_state) option" where
  "esc_char acc c =
     (if c = CHR 0x22 \<or> c = CHR 0x5C \<or> c = CHR ''/'' then Some ([], LStr (c # acc))
      else if c = CHR ''b'' then Some ([], LStr (CHR 0x08 # acc))
      else if c = CHR ''f'' then Some ([], LStr (CHR 0x0C # acc))
      else if c = CHR ''n'' then Some ([], LStr (CHR 0x0A # acc))
      else if c = CHR ''r'' then Some ([], LStr (CHR 0x0D # acc))
      else if c = CHR ''t'' then Some ([], LStr (CHR 0x09 # acc))
      else if c = CHR ''u'' then Some ([], LUni acc 0 0)
      else None)"

definition is_high :: "nat \<Rightarrow> bool" where
  "is_high n = (0xD800 \<le> n \<and> n \<le> 0xDBFF)"

definition is_low :: "nat \<Rightarrow> bool" where
  "is_low n = (0xDC00 \<le> n \<and> n \<le> 0xDFFF)"

fun lex_step :: "lex_state \<Rightarrow> char \<Rightarrow> (token list \<times> lex_state) option" where
  "lex_step LStart c = lex_start c"
| "lex_step (LStr acc) c = str_char acc c"
| "lex_step (LEsc acc) c = esc_char acc c"
| "lex_step (LUni acc k v) c =
     (case hex_val c of
        None \<Rightarrow> None
      | Some h \<Rightarrow>
          (let n = 16 * v + h in
           if k < 3 then Some ([], LUni acc (Suc k) n)
           else if is_high n then Some ([], LHi acc n)
           else Some ([], LStr (rev (utf8 n) @ acc))))"
| "lex_step (LHi acc hi) c =
     (if c = CHR 0x5C then Some ([], LHiEsc acc hi) else str_char (rev (utf8 hi) @ acc) c)"
| "lex_step (LHiEsc acc hi) c =
     (if c = CHR ''u'' then Some ([], LHiUni acc hi 0 0) else esc_char (rev (utf8 hi) @ acc) c)"
| "lex_step (LHiUni acc hi k v) c =
     (case hex_val c of
        None \<Rightarrow> None
      | Some h \<Rightarrow>
          (let n = 16 * v + h in
           if k < 3 then Some ([], LHiUni acc hi (Suc k) n)
           else if is_low n then
             Some ([], LStr (rev (utf8 (0x10000 + (hi - 0xD800) * 0x400 + (n - 0xDC00))) @ acc))
           else if is_high n then Some ([], LHi (rev (utf8 hi) @ acc) n)
           else Some ([], LStr (rev (utf8 n) @ rev (utf8 hi) @ acc))))"
| "lex_step (LLit rest v) c =
     (case rest of
        [] \<Rightarrow> None
      | x # xs \<Rightarrow>
          if c \<noteq> x then None
          else if xs = [] then Some ([TValue v], LStart)
          else Some ([], LLit xs v))"
| "lex_step LMinus c =
     (if c = CHR ''I'' then Some ([], LLit ''nfinity'' (JInf True))
      else if c = CHR ''0'' then Some ([], LZero True)
      else (case digit_val c of Some d \<Rightarrow> Some ([], LInt True d) | None \<Rightarrow> None))"
| "lex_step (LZero neg) c =
     (if c = CHR ''.'' then Some ([], LFracStart neg 0)
      else if c = CHR ''e'' \<or> c = CHR ''E'' then Some ([], LExpStart neg 0 0)
      else lex_emit (JInt 0) c)"
| "lex_step (LInt neg n) c =
     (case digit_val c of
        Some d \<Rightarrow> Some ([], LInt neg (10 * n + d))
      | None \<Rightarrow>
          if c = CHR ''.'' then Some ([], LFracStart neg n)
          else if c = CHR ''e'' \<or> c = CHR ''E'' then Some ([], LExpStart neg n 0)
          else lex_emit (JInt (signed neg n)) c)"
| "lex_step (LFracStart neg n) c =
     (case digit_val c of Some d \<Rightarrow> Some ([], LFrac neg (10 * n + d) 1) | None \<Rightarrow> None)"
| "lex_step (LFrac neg m k) c =
     (case digit_val c of
        Some d \<Rightarrow> Some ([], LFrac neg (10 * m + d) (Suc k))
      | None \<Rightarrow>
          if c = CHR ''e'' \<or> c = CHR ''E'' then Some ([], LExpStart neg m k)
          else lex_emit (JFloat (signed neg m) (- int k)) c)"
| "lex_step (LExpStart neg m k) c =
     (if c = CHR ''+'' then Some ([], LExpSign neg m k False)
      else if c = CHR ''-'' then Some ([], LExpSign neg m k True)
      else (case digit_val c of Some d \<Rightarrow> Some ([], LExp neg m k False d) | None \<Rightarrow> None))"
| "lex_step (LExpSign neg m k eneg) c =
     (case digit_val c of Some d \<Rightarrow> Some ([], LExp neg m k eneg d) | None \<Rightarrow> None)"
| "lex_step (LExp neg m k eneg x) c =
     (case digit_val c of
        Some d \<Rightarrow> Some ([], LExp neg m k eneg (10 * x + d))
      | None \<Rightarrow> lex_emit (JFloat (signed neg m) (signed eneg x - int k)) c)"

fun lex_end :: "lex_state \<Rightarrow> token list option" where
  "lex_end LStart = Some []"
| "lex_end (LZero neg) = Some [TValue (JInt 0)]"
| "lex_end (LInt neg n) = Some [TValue (JInt (signed neg n))]"
| "lex_end (LFrac neg m k) = Some [TValue (JFloat (signed neg m) (- int k))]"
| "lex_end (LExp neg m k eneg x) = Some [TValue (JFloat (signed neg m) (signed eneg x - int k))]"
| "lex_end s = None"

fun lex :: "lex_state \<Rightarrow> string \<Rightarrow> token list option" where
  "lex s [] = lex_end s"
| "lex s (c # cs) =
     (case lex_step s c of
        None \<Rightarrow> None
      | Some (ts, s') \<Rightarrow> (case lex s' cs of None \<Rightarrow> None | Some us \<Rightarrow> Some (ts @ us)))"

fun dict_update :: "string \<Rightarrow> json \<Rightarrow> (string \<times> json) list \<Rightarrow> (string \<times> json) list" where
  "dict_update k v [] = [(k, v)]"
| "dict_update k v (kv # kvs) =
     (if fst kv = k then (k, v) # kvs else kv # dict_update k v kvs)"

definition dict_of :: "(string \<times> json) list \<Rightarrow> (string \<times> json) list" where
  "dict_of pairs = foldl (\<lambda>d kv. dict_update (fst kv) (snd kv) d) [] pairs"

text \<open>
  The parser keeps a stack of the arrays and objects that are open: the items read so
  far (last first), and for an object the key whose value is being read. Its states:
  a value is expected (and \<^verbatim>\<open>]\<close> is allowed just after \<^verbatim>\<open>[\<close>), a key is expected (and
  \<^verbatim>\<open>}\<close> is allowed just after \<^verbatim>\<open>{\<close>), a colon is expected, a value has been read.
\<close>

datatype frame = FArr "json list" | FObj "(string \<times> json) list" string

datatype pstate = PValue bool | PKey bool "(string \<times> json) list" | PColon "(string \<times> json) list" string | PAfter json

fun parse :: "pstate \<Rightarrow> frame list \<Rightarrow> token list \<Rightarrow> json option" where
  "parse s st [] = (case s of PAfter v \<Rightarrow> (if st = [] then Some v else None) | _ \<Rightarrow> None)"
| "parse s st (t # ts) =
     (case s of
        PValue first \<Rightarrow>
          (case t of
             TValue v \<Rightarrow> parse (PAfter v) st ts
           | TLBrack \<Rightarrow> parse (PValue True) (FArr [] # st) ts
           | TLBrace \<Rightarrow> parse (PKey True []) st ts
           | TRBrack \<Rightarrow>
               (if first then
                  (case st of FArr xs # st' \<Rightarrow> parse (PAfter (JArr [])) st' ts | _ \<Rightarrow> None)
                else None)
           | _ \<Rightarrow> None)
      | PKey first ps \<Rightarrow>
          (case t of
             TValue v \<Rightarrow> (case v of JStr k \<Rightarrow> parse (PColon ps k) st ts | _ \<Rightarrow> None)
           | TRBrace \<Rightarrow> (if first then parse (PAfter (JObj [])) st ts else None)
           | _ \<Rightarrow> None)
      | PColon ps k \<Rightarrow>
          (case t of TColon \<Rightarrow> parse (PValue False) (FObj ps k # st) ts | _ \<Rightarrow> None)
      | PAfter v \<Rightarrow>
          (case st of
             [] \<Rightarrow> None
           | FArr xs # st' \<Rightarrow>
               (case t of
                  TComma \<Rightarrow> parse (PValue False) (FArr (v # xs) # st') ts
                | TRBrack \<Rightarrow> parse (PAfter (JArr (rev (v # xs)))) st' ts
                | _ \<Rightarrow> None)
           | FObj ps k # st' \<Rightarrow>
               (case t of
                  TComma \<Rightarrow> parse (PKey False ((k, v) # ps)) st' ts
                | TRBrace \<Rightarrow> parse (PAfter (JObj (dict_of (rev ((k, v) # ps))))) st' ts
                | _ \<Rightarrow> None)))"

definition json_loads :: "string \<Rightarrow> decoded" where
  "json_loads s =
     (if prefix [CHR 0xEF, CHR 0xBB, CHR 0xBF] s then DecodeError
      else
        (case lex LStart s of
           None \<Rightarrow> DecodeError
         | Some ts \<Rightarrow>
             (case parse (PValue False) [] ts of None \<Rightarrow> DecodeError | Some v \<Rightarrow> Decoded v)))"

section \<open>The machine the plan runs on\<close>

text \<open>
  A \<open>world\<close> is the state of the host: the files by path, and whatever else the host
  keeps (the record's extension). The console is the list of the \<^verbatim>\<open>console.print\<close> calls
  that went through, each with the data it was given.
\<close>

record world =
  files :: "string \<rightharpoonup> string"

record completed =
  returncode :: int
  stdout :: string
  stderr :: string

datatype event =
    Notice string
  | ParseError string
  | RefineParseError string
  | RawResponse string
  | TaskPlan json
  | ShowStep nat json
  | ShowCommand json
  | ShowCode json json
  | ExecutingStep nat json
  | ExecutingCommand json
  | CommandOutput string
  | CommandSucceeded
  | CommandError string
  | CommandFailed
  | CreatingFile json
  | FileCreated
  | StepError nat string
  | TaskFailed string

text \<open>
  The program reaches outside itself through library calls whose behaviour is not its
  own. They are the parameter \<open>os\<close>:
  \<^item> \<open>subprocess_run\<close> is \<^verbatim>\<open>subprocess.run(cmd, shell=True, text=True, capture_output=True)\<close>:
    it returns a completed process or raises, and may change the world in any way;
  \<^item> \<open>open_error\<close> says whether \<^verbatim>\<open>open(filename, "w")\<close> raises in a world (permissions, a
    missing directory, a value that names no file), and with what;
  \<^item> \<open>write_error\<close> says whether writing a text to the opened file and closing it raises
    (a text the host's encoding cannot encode, a full disk), with what, and what the file
    is left holding;
  \<^item> \<open>render_error\<close> says whether \<^verbatim>\<open>console.print\<close> raises for a line in a world: the
    program puts the texts of the plan, of the commands' output and of the exceptions
    into strings and panels that the console library reads as markup, and the library
    raises on markup it cannot read (a closing tag that closes nothing), and when the
    terminal cannot show the text or is closed;
  \<^item> \<open>descriptor_written\<close> is the world after a text was written through a file name
    that is not a string, and the file closed: such a name is a descriptor of the
    process (it may be the console's own);
  \<^item> \<open>not_renderable\<close> is the exception the console library raises for a panel whose
    content is not a string.

  A line of the console is an \<open>event\<close>: which \<^verbatim>\<open>console.print\<close> of the program it is,
  and the data put into it. \<open>ParseError text\<close> and \<open>RefineParseError text\<close> are the lines
  of the two decoding handlers for the response \<open>text\<close> (the decoder's message in them is
  a function of the text).
\<close>

record 'x os =
  subprocess_run :: "json \<Rightarrow> 'x world_scheme \<Rightarrow> (exn + completed) \<times> 'x world_scheme"
  open_error :: "json \<Rightarrow> 'x world_scheme \<Rightarrow> exn option"
  write_error :: "json \<Rightarrow> string \<Rightarrow> 'x world_scheme \<Rightarrow> (exn \<times> string) option"
  render_error :: "event \<Rightarrow> 'x world_scheme \<Rightarrow> exn option"
  descriptor_written :: "json \<Rightarrow> string \<Rightarrow> 'x world_scheme \<Rightarrow> 'x world_scheme"
  not_renderable :: "event \<Rightarrow> exn"

record 'x state =
  host :: "'x world_scheme"
  console :: "event list"

text \<open>
  \<^verbatim>\<open>console.print(...)\<close> of a line: \<open>Some e\<close> when \<open>e\<close> is raised, and then nothing is
  printed. \<open>panel\<close> is the print of \<^verbatim>\<open>Panel(content, ...)\<close>, which raises at once when the
  content is not a string.
\<close>

definition say :: "'x os \<Rightarrow> event \<Rightarrow> 'x state \<Rightarrow> exn option \<times> 'x state" where
  "say os e st =
     (case render_error os e (host st) of
        Some x \<Rightarrow> (Some x, st)
      | None \<Rightarrow> (None, st\<lparr>console := console st @ [e]\<rparr>))"

definition panel :: "'x os \<Rightarrow> event \<Rightarrow> json \<Rightarrow> 'x state \<Rightarrow> exn option \<times> 'x state" where
  "panel os e content st =
     (case content of
        JStr text \<Rightarrow> say os e st
      | _ \<Rightarrow> (Some (not_renderable os e), st))"

text \<open>
  Statements in sequence: when the first raises, the rest does not run. \<open>and_then\<close>
  continues with a computation that returns or raises, \<open>and_next\<close> with one that only
  ends or raises.
\<close>

definition and_then ::
  "exn option \<times> 's \<Rightarrow> ('s \<Rightarrow> (exn + 'a) \<times> 's) \<Rightarrow> (exn + 'a) \<times> 's" where
  "and_then r k = (case r of (Some e, s) \<Rightarrow> (Inl e, s) | (None, s) \<Rightarrow> k s)"

definition and_next ::
  "exn option \<times> 's \<Rightarrow> ('s \<Rightarrow> exn option \<times> 's) \<Rightarrow> exn option \<times> 's" where
  "and_next r k = (case r of (Some e, s) \<Rightarrow> (Some e, s) | (None, s) \<Rightarrow> k s)"

text \<open>
  \<^verbatim>\<open>s.strip()\<close> is empty: every character of \<open>s\<close> is white space. On the UTF-8 bytes the
  white space characters of Python are the bytes 09 to 0D, 1C to 1F and 20, and the
  encodings of U+0085, U+00A0, U+1680, U+2000 to U+200A, U+2028, U+2029, U+202F, U+205F
  and U+3000.
\<close>

datatype ws_state = W0 | WC2 | WE1 | WE19A | WE2 | WE280 | WE281 | WE3 | WE380

fun ws_step :: "ws_state \<Rightarrow> nat \<Rightarrow> ws_state option" where
  "ws_step W0 n =
     (if (0x09 \<le> n \<and> n \<le> 0x0D) \<or> (0x1C \<le> n \<and> n \<le> 0x20) then Some W0
      else if n = 0xC2 then Some WC2
      else if n = 0xE1 then Some WE1
      else if n = 0xE2 then Some WE2
      else if n = 0xE3 then Some WE3
      else None)"
| "ws_step WC2 n = (if n = 0x85 \<or> n = 0xA0 then Some W0 else None)"
| "ws_step WE1 n = (if n = 0x9A then Some WE19A else None)"
| "ws_step WE19A n = (if n = 0x80 then Some W0 else None)"
| "ws_step WE2 n = (if n = 0x80 then Some WE280 else if n = 0x81 then Some WE281 else None)"
| "ws_step WE280 n =
     (if (0x80 \<le> n \<and> n \<le> 0x8A) \<or> n = 0xA8 \<or> n = 0xA9 \<or> n = 0xAF then Some W0 else None)"
| "ws_step WE281 n = (if n = 0x9F then Some W0 else None)"
| "ws_step WE3 n = (if n = 0x80 then Some WE380 else None)"
| "ws_step WE380 n = (if n = 0x80 then Some W0 else None)"

fun blank_from :: "ws_state \<Rightarrow> string \<Rightarrow> bool" where
  "blank_from s [] = (s = W0)"
| "blank_from s (c # cs) =
     (case ws_step s (of_char c) of None \<Rightarrow> False | Some s' \<Rightarrow> blank_from s' cs)"

definition blank :: "string \<Rightarrow> bool" where
  "blank s = blank_from W0 s"

text \<open>\<^verbatim>\<open>key in obj\<close> for a string key.\<close>

fun py_in :: "string \<Rightarrow> json \<Rightarrow> exn + bool" where
  "py_in k (JObj kvs) = Inr (k \<in> fst ` set kvs)"
| "py_in k (JArr xs) = Inr (JStr k \<in> set xs)"
| "py_in k (JStr s) = Inr (contains k s)"
| "py_in k v = Inl (TypeError (''argument of type '' @ quote @ py_type v @ quote @ '' is not iterable''))"

section \<open>The plan executor\<close>

text \<open>
  \<^verbatim>\<open>with open(filename, "w") as f: f.write(step["code"])\<close>, in the order Python runs it.
  Opening creates the file or empties it; a file name that is not a string and that
  \<^verbatim>\<open>open\<close> accepts names a descriptor, not a path: opening it changes nothing, and
  the world after the write and the close is the host's to say. Writing anything but a
  text raises \<^verbatim>\<open>TypeError\<close> and leaves the file empty; writing a text succeeds or fails
  as the host decides. \<open>put\<close> is the world in which the file holds a text and is closed.
\<close>

definition open_w :: "'x os \<Rightarrow> json \<Rightarrow> 'x world_scheme \<Rightarrow> exn + 'x world_scheme" where
  "open_w os filename w =
     (case open_error os filename w of
        Some e \<Rightarrow> Inl e
      | None \<Rightarrow>
          (case filename of
             JStr path \<Rightarrow> Inr (w\<lparr>files := (files w)(path \<mapsto> [])\<rparr>)
           | _ \<Rightarrow> Inr w))"

definition put :: "'x os \<Rightarrow> json \<Rightarrow> string \<Rightarrow> 'x world_scheme \<Rightarrow> 'x world_scheme" where
  "put os filename text w =
     (case filename of
        JStr path \<Rightarrow> w\<lparr>files := (files w)(path \<mapsto> text)\<rparr>
      | _ \<Rightarrow> descriptor_written os filename text w)"

definition f_write ::
  "'x os \<Rightarrow> json \<Rightarrow> json \<Rightarrow> 'x world_scheme \<Rightarrow> exn option \<times> 'x world_scheme" where
  "f_write os filename data w =
     (case data of
        JStr text \<Rightarrow>
          (case write_error os filename text w of
             Some (e, left) \<Rightarrow> (Some e, put os filename left w)
           | None \<Rightarrow> (None, put os filename text w))
      | _ \<Rightarrow>
          (Some (TypeError (''write() argument must be str, not '' @
                            (if data = JNull then ''None'' else py_type data))),
           put os filename [] w))"

text \<open>
  The two branches of the \<^verbatim>\<open>try\<close> block of \<^verbatim>\<open>execute_plan\<close>. Each returns \<open>Inl e\<close> when
  \<open>e\<close> is raised, \<open>Inr (Some r)\<close> when the function returns \<open>r\<close>, and \<open>Inr None\<close> when
  control reaches the end of the block.
\<close>

definition run_command ::
  "'x os \<Rightarrow> json \<Rightarrow> 'x state \<Rightarrow> (exn + (bool \<times> string) option) \<times> 'x state" where
  "run_command os step st =
     (case py_getitem step ''command'' of
        Inl e \<Rightarrow> (Inl e, st)
      | Inr cmd \<Rightarrow>
          and_then (panel os (ExecutingCommand cmd) cmd st) (\<lambda>st1.
            case subprocess_run os cmd (host st1) of
              (Inl e, w) \<Rightarrow> (Inl e, st1\<lparr>host := w\<rparr>)
            | (Inr result, w) \<Rightarrow>
                (let st2 = st1\<lparr>host := w\<rparr> in
                 if returncode result = 0 then
                   and_then
                     (if \<not> blank (stdout result) then say os (CommandOutput (stdout result)) st2
                      else (None, st2)) (\<lambda>st3.
                   and_then (say os CommandSucceeded st3) (\<lambda>st4.
                     (Inr None, st4)))
                 else
                   and_then (say os (CommandError (stderr result)) st2) (\<lambda>st3.
                   and_then (say os CommandFailed st3) (\<lambda>st4.
                     (Inr (Some (False, ''Command failed: '' @ stderr result)), st4))))))"

definition save_code ::
  "'x os \<Rightarrow> json \<Rightarrow> 'x state \<Rightarrow> (exn + (bool \<times> string) option) \<times> 'x state" where
  "save_code os step st =
     (case py_get step ''filename'' (JStr ''output.py'') of
        Inl e \<Rightarrow> (Inl e, st)
      | Inr filename \<Rightarrow>
          and_then (say os (CreatingFile filename) st) (\<lambda>st1.
            case open_w os filename (host st1) of
              Inl e \<Rightarrow> (Inl e, st1)
            | Inr w \<Rightarrow>
                (case py_getitem step ''code'' of
                   Inl e \<Rightarrow> (Inl e, st1\<lparr>host := w\<rparr>)
                 | Inr data \<Rightarrow>
                     (case f_write os filename data w of
                        (Some e, w') \<Rightarrow> (Inl e, st1\<lparr>host := w'\<rparr>)
                      | (None, w') \<Rightarrow>
                          and_then (say os FileCreated (st1\<lparr>host := w'\<rparr>)) (\<lambda>st2.
                            (Inr None, st2))))))"

definition step_body ::
  "'x os \<Rightarrow> json \<Rightarrow> 'x state \<Rightarrow> (exn + (bool \<times> string) option) \<times> 'x state" where
  "step_body os step st =
     (case py_get step ''is_command'' (JBool False) of
        Inl e \<Rightarrow> (Inl e, st)
      | Inr flag \<Rightarrow>
          if truthy flag then run_command os step st
          else
            (case py_in ''code'' step of
               Inl e \<Rightarrow> (Inl e, st)
             | Inr has_code \<Rightarrow> if has_code then save_code os step st else (Inr None, st)))"

text \<open>
  One turn of the loop of \<^verbatim>\<open>execute_plan\<close> (lines 100 to 131). The line that prints the
  step's description stands before the \<^verbatim>\<open>try\<close>: what it raises leaves the function. The
  handler prints the exception of the block and returns \<^verbatim>\<open>False, str(e)\<close>; what that
  print raises leaves the function as well.
\<close>

datatype flow = Next | Returned "bool \<times> string" | Raised exn

definition exec_step :: "'x os \<Rightarrow> nat \<Rightarrow> json \<Rightarrow> 'x state \<Rightarrow> flow \<times> 'x state" where
  "exec_step os i step st =
     (case py_getitem step ''description'' of
        Inl e \<Rightarrow> (Raised e, st)
      | Inr d \<Rightarrow>
          (case say os (ExecutingStep i d) st of
             (Some e, st1) \<Rightarrow> (Raised e, st1)
           | (None, st1) \<Rightarrow>
               (case step_body os step st1 of
                  (Inl e, st2) \<Rightarrow>
                    (case say os (StepError i (str_exn e)) st2 of
                       (Some e', st3) \<Rightarrow> (Raised e', st3)
                     | (None, st3) \<Rightarrow> (Returned (False, str_exn e), st3))
                | (Inr (Some r), st2) \<Rightarrow> (Returned r, st2)
                | (Inr None, st2) \<Rightarrow> (Next, st2))))"

fun run_steps ::
  "'x os \<Rightarrow> nat \<Rightarrow> json list \<Rightarrow> 'x state \<Rightarrow> (exn + bool \<times> string) \<times> 'x state" where
  "run_steps os i [] st = (Inr (True, ''All steps completed successfully''), st)"
| "run_steps os i (step # steps) st =
     (case exec_step os i step st of
        (Next, st') \<Rightarrow> run_steps os (Suc i) steps st'
      | (Returned r, st') \<Rightarrow> (Inr r, st')
      | (Raised e, st') \<Rightarrow> (Inl e, st'))"

text \<open>
  \<^verbatim>\<open>execute_plan(plan)\<close>: \<open>Inr (ok, detail)\<close> is the returned pair, \<open>Inl e\<close> an exception
  that leaves the function.
\<close>

definition execute_plan ::
  "'x os \<Rightarrow> json \<Rightarrow> 'x state \<Rightarrow> (exn + bool \<times> string) \<times> 'x state" where
  "execute_plan os plan st =
     (case py_getitem plan ''steps'' of
        Inl e \<Rightarrow> (Inl e, st)
      | Inr v \<Rightarrow>
          (case py_iter v of
             Inl e \<Rightarrow> (Inl e, st)
           | Inr steps \<Rightarrow> run_steps os 1 steps st))"

section \<open>The plan presenter\<close>

definition show_step :: "'x os \<Rightarrow> nat \<Rightarrow> json \<Rightarrow> 'x state \<Rightarrow> exn option \<times> 'x state" where
  "show_step os i step st =
     (case py_getitem step ''description'' of
        Inl e \<Rightarrow> (Some e, st)
      | Inr d \<Rightarrow>
          and_next (say os (ShowStep i d) st) (\<lambda>st1.
            case py_get step ''is_command'' (JBool False) of
              Inl e \<Rightarrow> (Some e, st1)
            | Inr flag \<Rightarrow>
                if truthy flag then
                  (case py_getitem step ''command'' of
                     Inl e \<Rightarrow> (Some e, st1)
                   | Inr cmd \<Rightarrow> panel os (ShowCommand cmd) cmd st1)
                else
                  (case py_in ''code'' step of
                     Inl e \<Rightarrow> (Some e, st1)
                   | Inr has_code \<Rightarrow>
                       if has_code then
                         (case py_getitem step ''code'' of
                            Inl e \<Rightarrow> (Some e, st1)
                          | Inr data \<Rightarrow>
                              (case py_get step ''filename'' (JStr ''file'') of
                                 Inl e \<Rightarrow> (Some e, st1)
                               | Inr filename \<Rightarrow> panel os (ShowCode data filename) data st1))
                       else (None, st1))))"

fun show_steps :: "'x os \<Rightarrow> nat \<Rightarrow> json list \<Rightarrow> 'x state \<Rightarrow> exn option \<times> 'x state" where
  "show_steps os i [] st = (None, st)"
| "show_steps os i (step # steps) st =
     (case show_step os i step st of
        (Some e, st') \<Rightarrow> (Some e, st')
      | (None, st') \<Rightarrow> show_steps os (Suc i) steps st')"

text \<open>\<^verbatim>\<open>display_plan(plan)\<close>: \<open>Some e\<close> when \<open>e\<close> is raised.\<close>

definition display_plan :: "'x os \<Rightarrow> json \<Rightarrow> 'x state \<Rightarrow> exn option \<times> 'x state" where
  "display_plan os plan st =
     (case py_getitem plan ''plan_description'' of
        Inl e \<Rightarrow> (Some e, st)
      | Inr d \<Rightarrow>
          and_next (say os (TaskPlan d) st) (\<lambda>st1.
            case py_getitem plan ''steps'' of
              Inl e \<Rightarrow> (Some e, st1)
            | Inr v \<Rightarrow>
                (case py_iter v of
                   Inl e \<Rightarrow> (Some e, st1)
                 | Inr steps \<Rightarrow> show_steps os 1 steps st1)))"

section \<open>The session controller\<close>

text \<open>
  The loop of \<^verbatim>\<open>main\<close> (lines 199 to 238) talks to two parties the program does not
  control. The model service is a script of replies, one taken by each call of
  \<^verbatim>\<open>generate_content\<close> (a reply is the response text, or an exception the call or the
  reading of \<^verbatim>\<open>response.text\<close> raises); the requests sent are recorded. The operator is
  a script of answers to \<^verbatim>\<open>Confirm.ask\<close> and a script of lines for \<^verbatim>\<open>console.input\<close>.
  A session whose scripts run out ends as \<open>Starved\<close>; one that an exception leaves ends
  as \<open>Crashed\<close>.
\<close>

datatype reply = Reply string | Fails exn

datatype request = PlanRequest string | RefineRequest string string

datatype abort = NoPlan | PlanRejected | NoRefinedPlan

datatype outcome = Done | Aborted abort | Crashed exn | Starved

datatype 'a res = Val 'a | Exc exn | Eof

record 'x session =
  machine :: "'x state"
  plan_var :: json
  llm :: "reply list"
  requests :: "request list"
  confirms :: "bool list"
  inputs :: "string list"

definition tell :: "'x os \<Rightarrow> event \<Rightarrow> 'x session \<Rightarrow> exn option \<times> 'x session" where
  "tell os e s = (case say os e (machine s) of (r, m) \<Rightarrow> (r, s\<lparr>machine := m\<rparr>))"

text \<open>A statement of \<^verbatim>\<open>main\<close> that may raise, and the statements after it.\<close>

definition or_crash ::
  "exn option \<times> 's \<Rightarrow> ('s \<Rightarrow> outcome option \<times> 's) \<Rightarrow> outcome option \<times> 's" where
  "or_crash r k = (case r of (Some e, s) \<Rightarrow> (Some (Crashed e), s) | (None, s) \<Rightarrow> k s)"

definition generate_content :: "request \<Rightarrow> 'x session \<Rightarrow> string res \<times> 'x session" where
  "generate_content rq s =
     (case llm s of
        [] \<Rightarrow> (Eof, s)
      | r # rs \<Rightarrow>
          (let s' = s\<lparr>llm := rs, requests := requests s @ [rq]\<rparr> in
           case r of Reply text \<Rightarrow> (Val text, s') | Fails e \<Rightarrow> (Exc e, s')))"

definition ask :: "'x session \<Rightarrow> (bool \<times> 'x session) option" where
  "ask s = (case confirms s of [] \<Rightarrow> None | b # bs \<Rightarrow> Some (b, s\<lparr>confirms := bs\<rparr>))"

definition read_line :: "'x session \<Rightarrow> (string \<times> 'x session) option" where
  "read_line s = (case inputs s of [] \<Rightarrow> None | l # ls \<Rightarrow> Some (l, s\<lparr>inputs := ls\<rparr>))"

text \<open>
  The \<^verbatim>\<open>try\<close> and \<^verbatim>\<open>except\<close> of \<^verbatim>\<open>get_plan\<close> and \<^verbatim>\<open>refine_plan\<close> on a response text. Only
  \<^verbatim>\<open>JSONDecodeError\<close> is caught: the handler prints a line and the raw response in a
  panel, and returns \<^verbatim>\<open>None\<close> (\<open>JNull\<close>), unless one of the two prints raises. \<open>failed\<close>
  is the handler's first line.
\<close>

definition decode_reply ::
  "(string \<Rightarrow> decoded) \<Rightarrow> 'x os \<Rightarrow> (string \<Rightarrow> event) \<Rightarrow> string \<Rightarrow> 'x session \<Rightarrow>
     json res \<times> 'x session" where
  "decode_reply loads os failed text s =
     (case parse_plan loads text of
        Inl e \<Rightarrow> (Exc e, s)
      | Inr (DecoderRaised e) \<Rightarrow> (Exc e, s)
      | Inr (Decoded plan) \<Rightarrow> (Val plan, s)
      | Inr DecodeError \<Rightarrow>
          (case tell os (failed text) s of
             (Some e, s1) \<Rightarrow> (Exc e, s1)
           | (None, s1) \<Rightarrow>
               (case tell os (RawResponse text) s1 of
                  (Some e, s2) \<Rightarrow> (Exc e, s2)
                | (None, s2) \<Rightarrow> (Val JNull, s2))))"

text \<open>\<^verbatim>\<open>get_plan(model, task)\<close> and \<^verbatim>\<open>refine_plan(model, task, error_details)\<close>.\<close>

definition get_plan ::
  "(string \<Rightarrow> decoded) \<Rightarrow> 'x os \<Rightarrow> string \<Rightarrow> 'x session \<Rightarrow> json res \<times> 'x session" where
  "get_plan loads os task s =
     (case generate_content (PlanRequest task) s of
        (Eof, s') \<Rightarrow> (Eof, s')
      | (Exc e, s') \<Rightarrow> (Exc e, s')
      | (Val text, s') \<Rightarrow> decode_reply loads os ParseError text s')"

definition refine_plan ::
  "(string \<Rightarrow> decoded) \<Rightarrow> 'x os \<Rightarrow> string \<Rightarrow> string \<Rightarrow> 'x session \<Rightarrow>
     json res \<times> 'x session" where
  "refine_plan loads os task error_details s =
     (case generate_content (RefineRequest task error_details) s of
        (Eof, s') \<Rightarrow> (Eof, s')
      | (Exc e, s') \<Rightarrow> (Exc e, s')
      | (Val text, s') \<Rightarrow> decode_reply loads os RefineParseError text s')"

text \<open>
  Lines 228 to 231 and 235 to 238: \<^verbatim>\<open>plan = refine_plan(...)\<close>, then \<^verbatim>\<open>break\<close> when there
  is no plan. \<open>Some outcome\<close> ends the loop, \<open>None\<close> goes round again.
\<close>

definition refine ::
  "(string \<Rightarrow> decoded) \<Rightarrow> 'x os \<Rightarrow> string \<Rightarrow> string \<Rightarrow> 'x session \<Rightarrow>
     outcome option \<times> 'x session" where
  "refine loads os task error_details s =
     (case refine_plan loads os task error_details s of
        (Eof, s') \<Rightarrow> (Some Starved, s')
      | (Exc e, s') \<Rightarrow> (Some (Crashed e), s')
      | (Val plan, s') \<Rightarrow>
          (let s1 = s'\<lparr>plan_var := plan\<rparr> in
           if \<not> truthy plan then
             or_crash (tell os (Notice ''Failed to refine the plan. Please try again.'') s1)
               (\<lambda>s2. (Some (Aborted NoRefinedPlan), s2))
           else (None, s1)))"

text \<open>Lines 215 to 238: the approved plan is executed and the outcome judged.\<close>

definition execute_and_judge ::
  "(string \<Rightarrow> decoded) \<Rightarrow> 'x os \<Rightarrow> string \<Rightarrow> 'x session \<Rightarrow> outcome option \<times> 'x session" where
  "execute_and_judge loads os task s =
     or_crash (tell os (Notice ''Executing plan...'') s) (\<lambda>s1.
       case execute_plan os (plan_var s1) (machine s1) of
         (Inl e, m) \<Rightarrow> (Some (Crashed e), s1\<lparr>machine := m\<rparr>)
       | (Inr (success, message), m) \<Rightarrow>
           (let s2 = s1\<lparr>machine := m\<rparr> in
            if success then
              or_crash (tell os (Notice ''Task completed!'') s2) (\<lambda>s3.
                case ask s3 of
                  None \<Rightarrow> (Some Starved, s3)
                | Some (True, s4) \<Rightarrow>
                    or_crash (tell os (Notice ''Great! Task completed successfully.'') s4)
                      (\<lambda>s5. (Some Done, s5))
                | Some (False, s4) \<Rightarrow>
                    (case read_line s4 of
                       None \<Rightarrow> (Some Starved, s4)
                     | Some (error_details, s5) \<Rightarrow>
                         or_crash (tell os (Notice ''Refining the plan based on feedback...'') s5)
                           (\<lambda>s6. refine loads os task error_details s6)))
            else
              or_crash (tell os (TaskFailed message) s2) (\<lambda>s3.
              or_crash (tell os (Notice ''Refining the plan based on error...'') s3) (\<lambda>s4.
                refine loads os task message s4))))"

text \<open>One turn of the \<^verbatim>\<open>while True\<close> loop (lines 200 to 238).\<close>

definition iteration ::
  "(string \<Rightarrow> decoded) \<Rightarrow> 'x os \<Rightarrow> string \<Rightarrow> 'x session \<Rightarrow> outcome option \<times> 'x session" where
  "iteration loads os task s =
     or_crash (tell os (Notice ''Generating plan using Gemini AI...'') s) (\<lambda>s0.
       case get_plan loads os task s0 of
         (Eof, s') \<Rightarrow> (Some Starved, s')
       | (Exc e, s') \<Rightarrow> (Some (Crashed e), s')
       | (Val plan, s') \<Rightarrow>
           (let s1 = s'\<lparr>plan_var := plan\<rparr> in
            if \<not> truthy plan then
              or_crash (tell os (Notice ''Failed to generate a valid plan. Please try again.'') s1)
                (\<lambda>s2. (Some (Aborted NoPlan), s2))
            else
              (case display_plan os plan (machine s1) of
                 (Some e, m) \<Rightarrow> (Some (Crashed e), s1\<lparr>machine := m\<rparr>)
               | (None, m) \<Rightarrow>
                   (case ask (s1\<lparr>machine := m\<rparr>) of
                      None \<Rightarrow> (Some Starved, s1\<lparr>machine := m\<rparr>)
                    | Some (False, s2) \<Rightarrow>
                        or_crash (tell os (Notice ''Plan rejected. Exiting.'') s2)
                          (\<lambda>s3. (Some (Aborted PlanRejected), s3))
                    | Some (True, s2) \<Rightarrow> execute_and_judge loads os task s2))))"

text \<open>
  Every turn that goes round again has taken a reply from the service's script, so the
  loop ends on every script: the session is a total function of the scripts.
\<close>

lemma tell_llm: "tell os e s = (r, s') \<Longrightarrow> llm s' = llm s"
  by (auto simp: tell_def split: prod.splits)

lemma generate_content_llm:
  "generate_content rq s = (r, s') \<Longrightarrow>
     length (llm s') \<le> length (llm s) \<and> ((\<exists>v. r = Val v) \<longrightarrow> length (llm s') < length (llm s))"
  by (auto simp: generate_content_def Let_def split: list.splits reply.splits)

lemma decode_reply_llm: "decode_reply loads os failed text s = (r, s') \<Longrightarrow> llm s' = llm s"
  by (auto simp: decode_reply_def split: sum.splits decoded.splits prod.splits option.splits
      dest!: tell_llm)

lemma get_plan_llm:
  "get_plan loads os task s = (Val p, s') \<Longrightarrow> length (llm s') < length (llm s)"
  using generate_content_llm[of "PlanRequest task" s]
  by (auto simp: get_plan_def split: prod.splits res.splits dest!: decode_reply_llm)

lemma refine_plan_llm:
  "refine_plan loads os task d s = (r, s') \<Longrightarrow> length (llm s') \<le> length (llm s)"
  using generate_content_llm[of "RefineRequest task d" s]
  by (auto simp: refine_plan_def split: prod.splits res.splits dest!: decode_reply_llm)

lemma refine_llm:
  "refine loads os task d s = (r, s') \<Longrightarrow> length (llm s') \<le> length (llm s)"
  using refine_plan_llm[of loads os task d s]
  by (auto simp: refine_def Let_def or_crash_def
      split: prod.splits res.splits if_splits option.splits dest!: tell_llm)

lemma ask_llm: "ask s = Some (b, s') \<Longrightarrow> llm s' = llm s"
  by (auto simp: ask_def split: list.splits)

lemma read_line_llm: "read_line s = Some (l, s') \<Longrightarrow> llm s' = llm s"
  by (auto simp: read_line_def split: list.splits)

lemma execute_and_judge_llm:
  "execute_and_judge loads os task s = (r, s') \<Longrightarrow> length (llm s') \<le> length (llm s)"
  by (auto simp: execute_and_judge_def Let_def or_crash_def
      split: prod.splits sum.splits option.splits bool.splits if_splits
      dest!: ask_llm read_line_llm refine_llm tell_llm)

lemma iteration_llm:
  "iteration loads os task s = (None, s') \<Longrightarrow> length (llm s') < length (llm s)"
  by (auto simp: iteration_def Let_def or_crash_def
      split: prod.splits res.splits option.splits bool.splits if_splits
      dest!: ask_llm get_plan_llm execute_and_judge_llm tell_llm)

text \<open>The \<^verbatim>\<open>while True\<close> loop of \<^verbatim>\<open>main\<close>.\<close>

function main_loop ::
  "(string \<Rightarrow> decoded) \<Rightarrow> 'x os \<Rightarrow> string \<Rightarrow> 'x session \<Rightarrow> outcome \<times> 'x session" where
  "main_loop loads os task s =
     (case iteration loads os task s of
        (Some out, s') \<Rightarrow> (out, s')
      | (None, s') \<Rightarrow> main_loop loads os task s')"
  by pat_completeness auto
termination
  by (relation "measure (\<lambda>(loads, os, task, s). length (llm s))") (auto dest: iteration_llm[OF sym])

declare main_loop.simps [simp del]

section \<open>Vocabulary of the properties\<close>

text \<open>
  \<open>started es\<close> lists, in order, the numbers of the steps whose execution the console
  \<open>es\<close> announces (line 100).
\<close>

fun started :: "event list \<Rightarrow> nat list" where
  "started [] = []"
| "started (ExecutingStep i d # es) = i # started es"
| "started (e # es) = started es"

text \<open>\<open>prints os w es\<close>: in the world \<open>w\<close> the console prints each line of \<open>es\<close>.\<close>

definition prints :: "'x os \<Rightarrow> 'x world_scheme \<Rightarrow> event list \<Rightarrow> bool" where
  "prints os w es = list_all (\<lambda>e. render_error os e w = None) es"

text \<open>
  \<open>falsy_flag kvs\<close>: \<^verbatim>\<open>step.get("is_command", False)\<close> is false for the dictionary \<open>kvs\<close>.
  An idle step is a dictionary with a description, with \<^verbatim>\<open>is_command\<close> absent or
  \<^verbatim>\<open>false\<close>, and without \<^verbatim>\<open>code\<close>.
\<close>

definition falsy_flag :: "(string \<times> json) list \<Rightarrow> bool" where
  "falsy_flag kvs = (case map_of kvs ''is_command'' of None \<Rightarrow> True | Some flag \<Rightarrow> \<not> truthy flag)"

fun idle_step :: "json \<Rightarrow> bool" where
  "idle_step (JObj kvs) =
     (map_of kvs ''description'' \<noteq> None \<and>
      (map_of kvs ''is_command'' = None \<or> map_of kvs ''is_command'' = Some (JBool False)) \<and>
      map_of kvs ''code'' = None)"
| "idle_step v = False"

text \<open>
  \<open>clear_before sep a\<close>: no occurrence of \<open>sep\<close> begins inside \<open>a\<close> when \<open>sep\<close> is
  written after it, so that in \<open>a @ sep @ r\<close> the leftmost occurrence of \<open>sep\<close> is the one
  after \<open>a\<close>. In particular \<open>a\<close> does not contain \<open>sep\<close>.
\<close>

definition clear_before :: "string \<Rightarrow> string \<Rightarrow> bool" where
  "clear_before sep a = (\<not> contains sep (a @ butlast sep))"

section \<open>A host and steps for the examples\<close>

text \<open>
  The console library reads \<^verbatim>\<open>[/name]\<close> as the closing tag of a style and raises
  \<^verbatim>\<open>MarkupError\<close> when no such style is open; the position in the message is the index of
  the tag in the string that is printed.
\<close>

definition markup_error :: "string \<Rightarrow> string \<Rightarrow> exn" where
  "markup_error tag position =
     LibError ''MarkupError''
       (''closing tag '' @ quote @ tag @ quote @ '' at position '' @ position @
        '' doesn'' @ quote @ ''t match any open tag'')"

text \<open>
  The text that \<^verbatim>\<open>json.loads\<close> returns for a JSON string that holds the escape of
  U+D800 alone: one code point, a surrogate without its pair. No encoding of a file can
  write it.
\<close>

definition lone_surrogate :: string where
  "lone_surrogate = [CHR 0xED, CHR 0xA0, CHR 0x80]"

definition surrogate_error :: exn where
  "surrogate_error =
     LibError ''UnicodeEncodeError''
       (quote @ ''utf-8'' @ quote @ '' codec can'' @ quote @ ''t encode character '' @
        quote @ [CHR 0x5C] @ ''ud800'' @ quote @ '' in position 0: surrogates not allowed'')"

text \<open>
  On the example host \<^verbatim>\<open>true\<close> succeeds silently, \<^verbatim>\<open>echo hi\<close> prints a line, \<^verbatim>\<open>echo\<close>
  prints an empty line, \<^verbatim>\<open>sh list.sh\<close> exits with status 2 and a complaint about a file
  named \<^verbatim>\<open>[/x]\<close> on its error stream, every other command exits with status 1 and \<^verbatim>\<open>boom\<close>
  on its error stream; no command changes a file, every path but one can be opened, and
  a write through a descriptor changes nothing.
  The file encoding is UTF-8: of the texts of the examples, it refuses the lone
  surrogate, and the file stays empty. The console refuses, as the console library does,
  the lines of the examples in which a closing tag closes nothing: the announcement of
  step 1 with the description \<^verbatim>\<open>list [/etc]\<close>, the panel of the error stream of
  \<^verbatim>\<open>sh list.sh\<close>, and the handler's line for step 1 that holds the message of that
  refusal.
\<close>

definition demo_os :: "unit os" where
  "demo_os =
     \<lparr>subprocess_run = (\<lambda>cmd w.
        if cmd = JStr ''true'' then (Inr \<lparr>returncode = 0, stdout = [], stderr = []\<rparr>, w)
        else if cmd = JStr ''echo hi'' then
          (Inr \<lparr>returncode = 0, stdout = ''hi'' @ [CHR 0x0A], stderr = []\<rparr>, w)
        else if cmd = JStr ''echo'' then
          (Inr \<lparr>returncode = 0, stdout = [CHR 0x0A], stderr = []\<rparr>, w)
        else if cmd = JStr ''sh list.sh'' then
          (Inr \<lparr>returncode = 2, stdout = [],
                stderr = ''ls: [/x]: No such file or directory'' @ [CHR 0x0A]\<rparr>, w)
        else (Inr \<lparr>returncode = 1, stdout = [], stderr = ''boom''\<rparr>, w)),
      open_error = (\<lambda>filename w.
        if filename = JStr ''/proc/x'' then
          Some (LibError ''FileNotFoundError'' ''[Errno 2] No such file or directory'')
        else None),
      write_error = (\<lambda>filename text w.
        if text = lone_surrogate then Some (surrogate_error, []) else None),
      render_error = (\<lambda>e w.
        if e = ExecutingStep 1 (JStr ''list [/etc]'') then Some (markup_error ''[/etc]'' ''51'')
        else if e = CommandError (''ls: [/x]: No such file or directory'' @ [CHR 0x0A]) then
          Some (markup_error ''[/x]'' ''4'')
        else if e = StepError 1 (str_exn (markup_error ''[/x]'' ''4'')) then
          Some (markup_error ''[/x]'' ''44'')
        else None),
      descriptor_written = (\<lambda>filename text w. w),
      not_renderable = (\<lambda>e.
        LibError ''NotRenderableError''
          ''Unable to render the content; A str, Segment or object with __rich_console__ method is required'')\<rparr>"

definition fresh :: "unit state" where
  "fresh = \<lparr>host = \<lparr>files = Map.empty\<rparr>, console = []\<rparr>"

definition echo_step :: json where
  "echo_step = JObj [(''description'', JStr ''greet''), (''command'', JStr ''echo hi''), (''is_command'', JBool True)]"

definition failing_step :: json where
  "failing_step = JObj [(''description'', JStr ''fail''), (''command'', JStr ''false''), (''is_command'', JBool True)]"

definition file_step :: json where
  "file_step = JObj [(''description'', JStr ''save''), (''code'', JStr ''print(1)''), (''filename'', JStr ''late.py''), (''is_command'', JBool False)]"

text \<open>
  A session on the example host: the first plan fails at its only step, the service
  answers the refinement request, and answers one more plan request; the operator
  approves the first plan shown and rejects the second.
\<close>

definition first_reply :: string where
  \<open>first_reply = ''{"plan_description": "first", "steps": [{"description": "fail", "command": "false", "is_command": true}]}''\<close>

definition refined_reply :: string where
  \<open>refined_reply = ''{"plan_description": "refined", "steps": []}''\<close>

definition fresh_reply :: string where
  \<open>fresh_reply = ''{"plan_description": "fresh", "steps": []}''\<close>

definition demo_session :: "unit session" where
  "demo_session =
     \<lparr>machine = fresh, plan_var = JNull,
      llm = [Reply first_reply, Reply refined_reply, Reply fresh_reply],
      requests = [], confirms = [True, False], inputs = []\<rparr>"

definition after_refinement :: "unit session" where
  "after_refinement =
     \<lparr>machine = \<lparr>host = \<lparr>files = Map.empty\<rparr>,
        console = [Notice ''Generating plan using Gemini AI...'', TaskPlan (JStr ''first''),
                   ShowStep 1 (JStr ''fail''), ShowCommand (JStr ''false''),
                   Notice ''Executing plan...'', ExecutingStep 1 (JStr ''fail''),
                   ExecutingCommand (JStr ''false''), CommandError ''boom'', CommandFailed,
                   TaskFailed ''Command failed: boom'',
                   Notice ''Refining the plan based on error...'']\<rparr>,
      plan_var = JObj [(''plan_description'', JStr ''refined''), (''steps'', JArr [])],
      llm = [Reply fresh_reply],
      requests = [PlanRequest ''task'', RefineRequest ''task'' ''Command failed: boom''],
      confirms = [False], inputs = []\<rparr>"

section \<open>The executor runs the steps in order and stops at the first failure\<close>

lemma started_append: "started (xs @ ys) = started xs @ started ys"
  by (induction xs rule: started.induct) auto

lemma say_ok:
  "render_error os e (host st) = None \<Longrightarrow>
     say os e st = (None, st\<lparr>console := console st @ [e]\<rparr>)"
  by (simp add: say_def)

lemma say_raises: "render_error os e (host st) = Some x \<Longrightarrow> say os e st = (Some x, st)"
  by (simp add: say_def)

lemma say_started:
  "say os e st = (r, st') \<Longrightarrow> (\<And>i d. e \<noteq> ExecutingStep i d) \<Longrightarrow>
     started (console st') = started (console st)"
  by (cases e) (auto simp: say_def started_append split: option.splits)

lemma panel_started:
  "panel os e content st = (r, st') \<Longrightarrow> (\<And>i d. e \<noteq> ExecutingStep i d) \<Longrightarrow>
     started (console st') = started (console st)"
  by (cases content) (auto simp: panel_def dest: say_started)

lemma prints_Nil [simp]: "prints os w []"
  by (simp add: prints_def)

lemma prints_Cons [simp]:
  "prints os w (e # es) \<longleftrightarrow> render_error os e w = None \<and> prints os w es"
  by (simp add: prints_def)

lemma prints_append [simp]: "prints os w (xs @ ys) \<longleftrightarrow> prints os w xs \<and> prints os w ys"
  by (simp add: prints_def)

lemma and_then_simps [simp]:
  "and_then (None, s) k = k s"
  "and_then (Some e, s) k = (Inl e, s)"
  by (simp_all add: and_then_def)

lemma and_next_simps [simp]:
  "and_next (None, s) k = k s"
  "and_next (Some e, s) k = (Some e, s)"
  by (simp_all add: and_next_def)

lemma or_crash_simps [simp]:
  "or_crash (None, s) k = k s"
  "or_crash (Some e, s) k = (Some (Crashed e), s)"
  by (simp_all add: or_crash_def)

lemma run_command_flow:
  assumes "run_command os step st = (r, st')"
  shows "started (console st') = started (console st) \<and> (\<forall>ok d. r = Inr (Some (ok, d)) \<longrightarrow> \<not> ok)"
proof (cases "py_getitem step ''command''")
  case (Inl e)
  then show ?thesis using assms by (auto simp: run_command_def)
next
  case (Inr cmd)
  obtain p st1 where p: "panel os (ExecutingCommand cmd) cmd st = (p, st1)"
    by (cases "panel os (ExecutingCommand cmd) cmd st")
  have s1: "started (console st1) = started (console st)"
    using panel_started[OF p] by simp
  show ?thesis
  proof (cases p)
    case (Some e)
    then show ?thesis using assms Inr p s1 by (auto simp: run_command_def)
  next
    case None
    obtain x w where x: "subprocess_run os cmd (host st1) = (x, w)"
      by (cases "subprocess_run os cmd (host st1)")
    show ?thesis
    proof (cases x)
      case (Inl e)
      then show ?thesis using assms Inr p None x s1 by (auto simp: run_command_def)
    next
      case (Inr result)
      let ?st2 = "st1\<lparr>host := w\<rparr>"
      show ?thesis
      proof (cases "returncode result = 0")
        case True
        obtain a st3 where a:
          "(if \<not> blank (stdout result) then say os (CommandOutput (stdout result)) ?st2
            else (None, ?st2)) = (a, st3)"
          by (cases "if \<not> blank (stdout result) then say os (CommandOutput (stdout result)) ?st2
                     else (None, ?st2)")
        have s3: "started (console st3) = started (console st)"
          using a s1 say_started[of os "CommandOutput (stdout result)" ?st2 a st3]
          by (auto split: if_splits)
        obtain b st4 where b: "say os CommandSucceeded st3 = (b, st4)"
          by (cases "say os CommandSucceeded st3")
        have s4: "started (console st4) = started (console st)"
          using say_started[OF b] s3 by simp
        have "run_command os step st = and_then (a, st3) (\<lambda>st3. and_then (say os CommandSucceeded st3) (\<lambda>st4. (Inr None, st4)))"
          using \<open>py_getitem step ''command'' = Inr cmd\<close> p None x Inr True a
          by (simp add: run_command_def Let_def)
        then show ?thesis using assms b s3 s4 by (cases a; cases b) auto
      next
        case False
        obtain a st3 where a: "say os (CommandError (stderr result)) ?st2 = (a, st3)"
          by (cases "say os (CommandError (stderr result)) ?st2")
        have s3: "started (console st3) = started (console st)"
          using say_started[OF a] s1 by simp
        obtain b st4 where b: "say os CommandFailed st3 = (b, st4)"
          by (cases "say os CommandFailed st3")
        have s4: "started (console st4) = started (console st)"
          using say_started[OF b] s3 by simp
        have "run_command os step st =
                and_then (a, st3) (\<lambda>st3. and_then (say os CommandFailed st3)
                  (\<lambda>st4. (Inr (Some (False, ''Command failed: '' @ stderr result)), st4)))"
          using \<open>py_getitem step ''command'' = Inr cmd\<close> p None x Inr False a
          by (simp add: run_command_def Let_def)
        then show ?thesis using assms b s3 s4 by (cases a; cases b) auto
      qed
    qed
  qed
qed

lemma save_code_flow:
  assumes "save_code os step st = (r, st')"
  shows "started (console st') = started (console st) \<and> (\<forall>ok d. r = Inr (Some (ok, d)) \<longrightarrow> \<not> ok)"
proof (cases "py_get step ''filename'' (JStr ''output.py'')")
  case (Inl e)
  then show ?thesis using assms by (auto simp: save_code_def)
next
  case (Inr filename)
  obtain a st1 where a: "say os (CreatingFile filename) st = (a, st1)"
    by (cases "say os (CreatingFile filename) st")
  have s1: "started (console st1) = started (console st)" using say_started[OF a] by simp
  show ?thesis
  proof (cases a)
    case (Some e)
    then show ?thesis using assms Inr a s1 by (auto simp: save_code_def)
  next
    case None
    have f: "\<And>w' b st2. say os FileCreated (st1\<lparr>host := w'\<rparr>) = (b, st2) \<Longrightarrow>
               started (console st2) = started (console st)"
      using say_started[of os FileCreated] s1 by fastforce
    show ?thesis using assms Inr a None s1
      by (auto simp: save_code_def and_then_def split: sum.splits prod.splits option.splits dest: f)
  qed
qed

lemma step_body_flow:
  "step_body os step st = (r, st') \<Longrightarrow>
     started (console st') = started (console st) \<and> (\<forall>ok d. r = Inr (Some (ok, d)) \<longrightarrow> \<not> ok)"
  using run_command_flow[of os step st r st'] save_code_flow[of os step st r st']
  by (auto simp: step_body_def split: sum.splits if_splits)

lemma exec_step_returned:
  "exec_step os i step st = (Returned (ok, d), st') \<Longrightarrow> \<not> ok"
  by (auto simp: exec_step_def split: sum.splits prod.splits option.splits dest: step_body_flow)

lemma exec_step_started:
  assumes "exec_step os i step st = (fl, st')" and "\<And>e. fl \<noteq> Raised e"
  shows "started (console st') = started (console st) @ [i]"
proof -
  from assms obtain d where d: "py_getitem step ''description'' = Inr d"
    by (cases "py_getitem step ''description''") (auto simp: exec_step_def)
  let ?st1 = "st\<lparr>console := console st @ [ExecutingStep i d]\<rparr>"
  have r: "render_error os (ExecutingStep i d) (host st) = None"
    using assms d by (auto simp: exec_step_def say_def split: option.splits)
  obtain b st2 where b: "step_body os step ?st1 = (b, st2)" by (cases "step_body os step ?st1")
  have s2: "started (console st2) = started (console st) @ [i]"
    using step_body_flow[OF b] by (simp add: started_append)
  show ?thesis
  proof (cases b)
    case (Inl e)
    obtain x st3 where x: "say os (StepError i (str_exn e)) st2 = (x, st3)"
      by (cases "say os (StepError i (str_exn e)) st2")
    then show ?thesis using assms d r b Inl s2 say_started[OF x]
      by (cases x) (auto simp: exec_step_def say_ok)
  next
    case (Inr y)
    then show ?thesis using assms d r b s2 by (cases y) (auto simp: exec_step_def say_ok)
  qed
qed

lemma run_steps_started:
  "run_steps os i pre st = (Inr (True, m), st1) \<Longrightarrow>
     started (console st1) = started (console st) @ [i ..< i + length pre]"
proof (induction pre arbitrary: i st)
  case Nil
  then show ?case by simp
next
  case (Cons s pre)
  obtain fl st' where e: "exec_step os i s st = (fl, st')" by (cases "exec_step os i s st")
  show ?case
  proof (cases fl)
    case Next
    then have r: "run_steps os (Suc i) pre st' = (Inr (True, m), st1)"
      using Cons.prems e by simp
    have 1: "started (console st') = started (console st) @ [i]"
      using exec_step_started[OF e] Next by simp
    have "i < i + length (s # pre)" by simp
    from upt_conv_Cons[OF this]
    have 2: "[i ..< i + length (s # pre)] = i # [Suc i ..< i + length (s # pre)]" .
    show ?thesis unfolding 2 using Cons.IH[OF r] 1 by simp
  next
    case (Returned r)
    then show ?thesis using Cons.prems e exec_step_returned[of os i s st True _ st']
      by (cases r) auto
  next
    case (Raised x)
    then show ?thesis using Cons.prems e by simp
  qed
qed

lemma run_steps_append:
  "run_steps os i pre st = (Inr (True, m), st1) \<Longrightarrow>
     run_steps os i (pre @ rest) st = run_steps os (i + length pre) rest st1"
proof (induction pre arbitrary: i st)
  case Nil
  then show ?case by simp
next
  case (Cons s pre)
  obtain fl st' where e: "exec_step os i s st = (fl, st')" by (cases "exec_step os i s st")
  show ?case
  proof (cases fl)
    case Next
    then have r: "run_steps os (Suc i) pre st' = (Inr (True, m), st1)"
      using Cons.prems e by simp
    show ?thesis using Cons.IH[OF r] e Next by simp
  next
    case (Returned r)
    then show ?thesis using Cons.prems e exec_step_returned[of os i s st True _ st']
      by (cases r) auto
  next
    case (Raised x)
    then show ?thesis using Cons.prems e by simp
  qed
qed

text \<open>
  The order and the stop hold on every host. Let the steps of a plan be
  \<open>pre @ k # post\<close>, let every step of \<open>pre\<close> run through, and let step \<open>k\<close> not run
  through: it returns or it raises. Then the steps \<open>1, \<dots>, length pre\<close> were announced in
  this order, what step \<open>k\<close> returns is a failure, and \<^verbatim>\<open>execute_plan\<close> ends as step \<open>k\<close>
  ends, in the state step \<open>k\<close> left: no step of \<open>post\<close> has run, changed the host or
  printed.
\<close>

lemma run_stops_at_first_failure:
  assumes "py_getitem plan ''steps'' = Inr v" and "py_iter v = Inr (pre @ k # post)"
    and "run_steps os 1 pre st = (Inr (True, m), st1)"
    and "exec_step os (Suc (length pre)) k st1 = (fl, st2)" and "fl \<noteq> Next"
  shows "started (console st1) = started (console st) @ [1 ..< 1 + length pre]"
    and "fl = Returned (ok, detail) \<Longrightarrow> \<not> ok \<and> execute_plan os plan st = (Inr (False, detail), st2)"
    and "fl = Raised e \<Longrightarrow> execute_plan os plan st = (Inl e, st2)"
proof -
  show "started (console st1) = started (console st) @ [1 ..< 1 + length pre]"
    using run_steps_started[OF assms(3)] .
  have a: "run_steps os 1 (pre @ k # post) st = run_steps os (1 + length pre) (k # post) st1"
    using run_steps_append[OF assms(3)] .
  show "\<not> ok \<and> execute_plan os plan st = (Inr (False, detail), st2)" if "fl = Returned (ok, detail)"
    using that exec_step_returned[of os "Suc (length pre)" k st1 ok detail st2] assms(1,2,4) a
    by (simp add: execute_plan_def)
  show "execute_plan os plan st = (Inl e, st2)" if "fl = Raised e"
    using that assms(1,2,4) a by (simp add: execute_plan_def)
qed

lemmas exec_defs =
  exec_step_def step_body_def run_command_def save_code_def open_w_def f_write_def put_def
  say_def panel_def blank_def Let_def quote_def

lemmas decode_defs =
  json_loads_def lex_start_def lex_emit_def str_char_def esc_char_def is_ws_def
  digit_val_def hex_val_def dict_of_def signed_def

lemmas select_defs = select_text_def py_index_def fence_def json_fence_def

text \<open>
  Claim C1. The result is not always a failure result. Take a plan whose first step is
  a command step, on a host where the command exits with a status that is not zero and
  the console refuses the panel of its error stream (the stream is printed as markup,
  line 117). The exception is caught by the handler of line 129, whose own print
  (line 130) puts the exception's message, with the offending text in it, into markup
  again. When the console refuses that line as well, the second exception leaves
  \<^verbatim>\<open>execute_plan\<close>: the step has failed and no failure result is returned. The steps
  after it do not run: the state is the one the first step left.
\<close>

theorem C1_failure_report_can_raise:
  assumes "prints os (host st) [ExecutingStep 1 d, ExecutingCommand (JStr cmd)]"
    and "subprocess_run os (JStr cmd) (host st) = (Inr r, w)" and "returncode r \<noteq> 0"
    and "render_error os (CommandError (stderr r)) w = Some e"
    and "render_error os (StepError 1 (str_exn e)) w = Some e'"
  shows "execute_plan os
           (JObj [(''steps'',
              JArr (JObj [(''description'', d), (''command'', JStr cmd), (''is_command'', JBool True)]
                    # later))]) st =
           (Inl e', \<lparr>host = w, console = console st @ [ExecutingStep 1 d, ExecutingCommand (JStr cmd)]\<rparr>)"
  using assms by (simp add: execute_plan_def exec_defs)

theorem C1_witness:
  "execute_plan demo_os
     (JObj [(''steps'',
        JArr [JObj [(''description'', JStr ''list''), (''command'', JStr ''sh list.sh''),
                    (''is_command'', JBool True)],
              file_step])]) fresh =
     (Inl (markup_error ''[/x]'' ''44''),
      \<lparr>host = \<lparr>files = Map.empty\<rparr>,
       console = [ExecutingStep 1 (JStr ''list''), ExecutingCommand (JStr ''sh list.sh'')]\<rparr>)"
proof -
  have 1: "prints demo_os (host fresh)
             [ExecutingStep 1 (JStr ''list''), ExecutingCommand (JStr ''sh list.sh'')]"
    by (simp add: demo_os_def)
  have 2: "subprocess_run demo_os (JStr ''sh list.sh'') (host fresh) =
             (Inr \<lparr>returncode = 2, stdout = [],
                   stderr = ''ls: [/x]: No such file or directory'' @ [CHR 0x0A]\<rparr>,
              \<lparr>files = Map.empty\<rparr>)"
    by (simp add: demo_os_def fresh_def)
  have 3: "returncode \<lparr>returncode = 2, stdout = [],
             stderr = ''ls: [/x]: No such file or directory'' @ [CHR 0x0A]\<rparr> \<noteq> 0"
    by simp
  have 4: "render_error demo_os
             (CommandError (stderr \<lparr>returncode = 2, stdout = [],
                stderr = ''ls: [/x]: No such file or directory'' @ [CHR 0x0A]\<rparr>))
             \<lparr>files = Map.empty\<rparr> =
           Some (markup_error ''[/x]'' ''4'')"
    by (simp add: demo_os_def)
  have 5: "render_error demo_os (StepError 1 (str_exn (markup_error ''[/x]'' ''4'')))
             \<lparr>files = Map.empty\<rparr> =
           Some (markup_error ''[/x]'' ''44'')"
    by (simp add: demo_os_def markup_error_def)
  from C1_failure_report_can_raise[OF 1 2 3 4 5, of "[file_step]"]
  show ?thesis by (simp add: fresh_def)
qed

text \<open>
  A failing step whose lines the console prints does return the failure, and the steps
  after it do not run.
\<close>

lemma first_failure_returned:
  "execute_plan demo_os (JObj [(''steps'', JArr [echo_step, failing_step, file_step])]) fresh =
     (Inr (False, ''Command failed: boom''),
      \<lparr>host = \<lparr>files = Map.empty\<rparr>,
       console = [ExecutingStep 1 (JStr ''greet''), ExecutingCommand (JStr ''echo hi''),
                  CommandOutput (''hi'' @ [CHR 0x0A]), CommandSucceeded,
                  ExecutingStep 2 (JStr ''fail''), ExecutingCommand (JStr ''false''),
                  CommandError ''boom'', CommandFailed]\<rparr>)"
  by (simp add: execute_plan_def exec_defs echo_step_def failing_step_def demo_os_def fresh_def)

section \<open>Command steps\<close>

text \<open>
  Claim C4, as the code has it. Take a step with a description whose \<^verbatim>\<open>is_command\<close> is
  true and whose command is a string that the shell runs to completion, on a host whose
  console prints the lines of the step. With exit status zero the step succeeds and the
  loop goes on; the captured standard output is shown when it has a character that is
  not white space. With any other exit status \<^verbatim>\<open>execute_plan\<close> returns a failure whose
  detail is the text \<^verbatim>\<open>Command failed: \<close> followed by the captured standard error, which
  is shown as well.
\<close>

theorem C4_command_step:
  assumes "map_of kvs ''description'' = Some d"
    and "map_of kvs ''is_command'' = Some flag" and "truthy flag"
    and "map_of kvs ''command'' = Some (JStr cmd)"
    and "subprocess_run os (JStr cmd) (host st) = (Inr r, w)"
    and "prints os (host st) [ExecutingStep i d, ExecutingCommand (JStr cmd)]"
    and "prints os w
           (if returncode r = 0 then
              (if blank (stdout r) then [] else [CommandOutput (stdout r)]) @ [CommandSucceeded]
            else [CommandError (stderr r), CommandFailed])"
  shows "exec_step os i (JObj kvs) st =
     (if returncode r = 0 then
        (Next,
         \<lparr>host = w,
          console = console st @ [ExecutingStep i d, ExecutingCommand (JStr cmd)] @
                    (if blank (stdout r) then [] else [CommandOutput (stdout r)]) @
                    [CommandSucceeded]\<rparr>)
      else
        (Returned (False, ''Command failed: '' @ stderr r),
         \<lparr>host = w,
          console = console st @ [ExecutingStep i d, ExecutingCommand (JStr cmd),
                                 CommandError (stderr r), CommandFailed]\<rparr>))"
  using assms
  by (simp add: exec_step_def step_body_def run_command_def panel_def say_ok Let_def
      split: if_splits)

theorem C4_witness:
  "exec_step demo_os 1 echo_step fresh =
     (Next, \<lparr>host = \<lparr>files = Map.empty\<rparr>,
              console = [ExecutingStep 1 (JStr ''greet''), ExecutingCommand (JStr ''echo hi''),
                         CommandOutput (''hi'' @ [CHR 0x0A]), CommandSucceeded]\<rparr>) \<and>
   exec_step demo_os 1 failing_step fresh =
     (Returned (False, ''Command failed: boom''),
      \<lparr>host = \<lparr>files = Map.empty\<rparr>,
       console = [ExecutingStep 1 (JStr ''fail''), ExecutingCommand (JStr ''false''),
                  CommandError ''boom'', CommandFailed]\<rparr>)"
proof -
  let ?r1 = "\<lparr>returncode = 0, stdout = ''hi'' @ [CHR 0x0A], stderr = []\<rparr>"
  let ?r2 = "\<lparr>returncode = 1, stdout = [], stderr = ''boom''\<rparr>"
  have 1: "subprocess_run demo_os (JStr ''echo hi'') (host fresh) = (Inr ?r1, \<lparr>files = Map.empty\<rparr>)"
    by (simp add: demo_os_def fresh_def)
  have 2: "subprocess_run demo_os (JStr ''false'') (host fresh) = (Inr ?r2, \<lparr>files = Map.empty\<rparr>)"
    by (simp add: demo_os_def fresh_def)
  have a: "map_of [(''description'', JStr ''greet''), (''command'', JStr ''echo hi''),
                   (''is_command'', JBool True)] ''description'' = Some (JStr ''greet'')"
    by simp
  have b: "map_of [(''description'', JStr ''fail''), (''command'', JStr ''false''),
                   (''is_command'', JBool True)] ''description'' = Some (JStr ''fail'')"
    by simp
  have p1: "prints demo_os (host fresh)
              [ExecutingStep 1 (JStr ''greet''), ExecutingCommand (JStr ''echo hi'')]"
    by (simp add: demo_os_def)
  have q1: "prints demo_os \<lparr>files = Map.empty\<rparr>
           (if returncode ?r1 = 0 then
              (if blank (stdout ?r1) then [] else [CommandOutput (stdout ?r1)]) @ [CommandSucceeded]
            else [CommandError (stderr ?r1), CommandFailed])"
    by (simp add: demo_os_def blank_def)
  have p2: "prints demo_os (host fresh)
              [ExecutingStep 1 (JStr ''fail''), ExecutingCommand (JStr ''false'')]"
    by (simp add: demo_os_def)
  have q2: "prints demo_os \<lparr>files = Map.empty\<rparr>
           (if returncode ?r2 = 0 then
              (if blank (stdout ?r2) then [] else [CommandOutput (stdout ?r2)]) @ [CommandSucceeded]
            else [CommandError (stderr ?r2), CommandFailed])"
    by (simp add: demo_os_def markup_error_def)
  from C4_command_step[OF a _ _ _ 1 p1 q1, of "JBool True"]
    C4_command_step[OF b _ _ _ 2 p2 q2, of "JBool True"]
  show ?thesis by (simp add: echo_step_def failing_step_def fresh_def blank_def)
qed

text \<open>
  The claim as first stated does not hold. On the example host \<^verbatim>\<open>false\<close> exits with
  status 1 and \<^verbatim>\<open>boom\<close> on its error stream: the detail returned is
  \<^verbatim>\<open>Command failed: boom\<close>, not \<^verbatim>\<open>boom\<close>. And \<^verbatim>\<open>echo\<close> exits with status 0 and a line
  feed on its output, which is not shown.
\<close>

theorem C4_counterexample:
  "subprocess_run demo_os (JStr ''false'') (host fresh) =
     (Inr \<lparr>returncode = 1, stdout = [], stderr = ''boom''\<rparr>, host fresh) \<and>
   fst (execute_plan demo_os (JObj [(''steps'', JArr [failing_step])]) fresh) =
     Inr (False, ''Command failed: boom'') \<and>
   ''Command failed: boom'' \<noteq> ''boom'' \<and>
   subprocess_run demo_os (JStr ''echo'') (host fresh) =
     (Inr \<lparr>returncode = 0, stdout = [CHR 0x0A], stderr = []\<rparr>, host fresh) \<and>
   execute_plan demo_os
     (JObj [(''steps'', JArr [JObj [(''description'', JStr ''newline''), (''command'', JStr ''echo''),
                                   (''is_command'', JBool True)]])]) fresh =
     (Inr (True, ''All steps completed successfully''),
      \<lparr>host = \<lparr>files = Map.empty\<rparr>,
       console = [ExecutingStep 1 (JStr ''newline''), ExecutingCommand (JStr ''echo''),
                  CommandSucceeded]\<rparr>)"
  by (simp add: execute_plan_def exec_defs failing_step_def demo_os_def fresh_def)

text \<open>
  A command that is not a string is not run: the panel of line 104 raises, inside the
  \<^verbatim>\<open>try\<close>.
\<close>

lemma command_not_a_string:
  assumes "py_getitem step ''command'' = Inr cmd" and "\<And>text. cmd \<noteq> JStr text"
  shows "run_command os step st = (Inl (not_renderable os (ExecutingCommand cmd)), st)"
proof (cases cmd)
  case (JStr t)
  then show ?thesis using assms(2) by blast
qed (use assms(1) in \<open>simp_all add: run_command_def panel_def\<close>)

section \<open>File steps\<close>

lemma map_of_has_key: "map_of kvs k = Some v \<Longrightarrow> k \<in> fst ` set kvs"
  by (metis map_of_eq_None_iff option.distinct(1))






text \<open>
  Claim C10, as the code has it. A step with a description, a false \<^verbatim>\<open>is_command\<close>, a
  text under \<^verbatim>\<open>code\<close> and no \<^verbatim>\<open>filename\<close> writes the text to \<^verbatim>\<open>output.py\<close> and runs
  through, when the console prints the lines of the step, \<^verbatim>\<open>output.py\<close> can be opened and
  the host can write the text to it.
\<close>

theorem C10_default_filename:
  assumes "map_of kvs ''description'' = Some d" and "falsy_flag kvs"
    and "map_of kvs ''code'' = Some (JStr content)"
    and "map_of kvs ''filename'' = None"
    and "prints os (host st) [ExecutingStep i d, CreatingFile (JStr ''output.py'')]"
    and "open_error os (JStr ''output.py'') (host st) = None"
    and "write_error os (JStr ''output.py'') content
           ((host st)\<lparr>files := (files (host st))(''output.py'' \<mapsto> [])\<rparr>) = None"
    and "prints os ((host st)\<lparr>files := (files (host st))(''output.py'' \<mapsto> content)\<rparr>) [FileCreated]"
  shows "exec_step os i (JObj kvs) st =
           (Next,
            \<lparr>host = (host st)\<lparr>files := (files (host st))(''output.py'' \<mapsto> content)\<rparr>,
             console = console st @
               [ExecutingStep i d, CreatingFile (JStr ''output.py''), FileCreated]\<rparr>)"
  using assms map_of_has_key[OF assms(3)]
  by (auto simp: exec_step_def step_body_def save_code_def open_w_def f_write_def put_def say_ok
      Let_def falsy_flag_def split: option.splits)

theorem C10_witness:
  "files (host (snd (exec_step demo_os 1
      (JObj [(''description'', JStr ''save''), (''code'', JStr ''print(1)'')]) fresh))) ''output.py''
   = Some ''print(1)''"
proof -
  let ?kvs = "[(''description'', JStr ''save''), (''code'', JStr ''print(1)'')]"
  have 1: "map_of ?kvs ''description'' = Some (JStr ''save'')" by simp
  have 2: "falsy_flag ?kvs" by (simp add: falsy_flag_def)
  have 3: "map_of ?kvs ''code'' = Some (JStr ''print(1)'')" by simp
  have 4: "map_of ?kvs ''filename'' = None" by simp
  have 5: "prints demo_os (host fresh) [ExecutingStep 1 (JStr ''save''), CreatingFile (JStr ''output.py'')]"
    by (simp add: demo_os_def)
  have 8: "prints demo_os ((host fresh)\<lparr>files := (files (host fresh))(''output.py'' \<mapsto> ''print(1)'')\<rparr>)
             [FileCreated]"
    by (simp add: demo_os_def)
  have 6: "open_error demo_os (JStr ''output.py'') (host fresh) = None" by (simp add: demo_os_def)
  have 7: "write_error demo_os (JStr ''output.py'') ''print(1)''
             ((host fresh)\<lparr>files := (files (host fresh))(''output.py'' \<mapsto> [])\<rparr>) = None"
    by (simp add: demo_os_def lone_surrogate_def)
  from C10_default_filename[OF 1 2 3 4 5 6 7 8]
  show ?thesis by simp
qed

text \<open>
  The claim as first stated speaks of every step with \<^verbatim>\<open>code\<close> and no \<^verbatim>\<open>filename\<close>. A step
  that also has a true \<^verbatim>\<open>is_command\<close> takes the command branch: its command runs and
  \<^verbatim>\<open>output.py\<close> is not written.
\<close>

theorem C10_counterexample:
  "exec_step demo_os 1
     (JObj [(''description'', JStr ''run''), (''code'', JStr ''print(1)''),
            (''command'', JStr ''true''), (''is_command'', JBool True)]) fresh =
     (Next, \<lparr>host = \<lparr>files = Map.empty\<rparr>,
              console = [ExecutingStep 1 (JStr ''run''), ExecutingCommand (JStr ''true''),
                         CommandSucceeded]\<rparr>) \<and>
   files (host (snd (exec_step demo_os 1
     (JObj [(''description'', JStr ''run''), (''code'', JStr ''print(1)''),
            (''command'', JStr ''true''), (''is_command'', JBool True)]) fresh))) ''output.py'' = None"
  by (simp add: exec_defs demo_os_def fresh_def)

section \<open>Idle steps\<close>

text \<open>
  An idle step whose announcement the console prints only announces itself, on every
  host, and a plan of idle steps succeeds on a host whose console prints every
  announcement.
\<close>

lemma idle_exec_dict:
  assumes "idle_step (JObj kvs)" and "map_of kvs ''description'' = Some d"
    and "render_error os (ExecutingStep i d) (host st) = None"
  shows "exec_step os i (JObj kvs) st = (Next, st\<lparr>console := console st @ [ExecutingStep i d]\<rparr>)"
proof -
  have "''code'' \<notin> fst ` set kvs" using assms(1) by (simp add: map_of_eq_None_iff)
  then have "py_in ''code'' (JObj kvs) = Inr False" by simp
  moreover have "py_get (JObj kvs) ''is_command'' (JBool False) = Inr (JBool False)"
    using assms(1) by auto
  ultimately show ?thesis using assms(2,3) by (simp add: exec_step_def step_body_def say_ok)
qed

lemma idle_exec:
  assumes "idle_step s" and "\<And>i d w. render_error os (ExecutingStep i d) w = None"
  shows "\<exists>d. exec_step os i s st = (Next, st\<lparr>console := console st @ [ExecutingStep i d]\<rparr>)"
proof (cases s)
  case (JObj kvs)
  then show ?thesis using assms idle_exec_dict[of kvs _ os i st] by auto
qed (use assms(1) in auto)

lemma idle_run:
  assumes "list_all idle_step steps" and "\<And>i d w. render_error os (ExecutingStep i d) w = None"
  shows "\<exists>ds. length ds = length steps \<and>
       run_steps os i steps st =
         (Inr (True, ''All steps completed successfully''),
          st\<lparr>console := console st @ map2 ExecutingStep [i ..< i + length steps] ds\<rparr>)"
  using assms(1)
proof (induction steps arbitrary: i st)
  case Nil
  then show ?case by simp
next
  case (Cons s steps)
  let ?say = "\<lambda>d. st\<lparr>console := console st @ [ExecutingStep i d]\<rparr>"
  from Cons.prems obtain d where d: "exec_step os i s st = (Next, ?say d)"
    using idle_exec[of s os i st] assms(2) by auto
  from Cons obtain ds where ds: "length ds = length steps"
    "run_steps os (Suc i) steps (?say d) =
       (Inr (True, ''All steps completed successfully''),
        (?say d)\<lparr>console := console (?say d) @
           map2 ExecutingStep [Suc i ..< Suc i + length steps] ds\<rparr>)"
    by fastforce
  have "i < i + length (s # steps)" by simp
  from upt_conv_Cons[OF this]
  have u: "[i ..< i + length (s # steps)] = i # [Suc i ..< i + length (s # steps)]" .
  have "length (d # ds) = length (s # steps)" using ds(1) by simp
  moreover have "run_steps os i (s # steps) st =
         (Inr (True, ''All steps completed successfully''),
          st\<lparr>console := console st @ map2 ExecutingStep [i ..< i + length (s # steps)] (d # ds)\<rparr>)"
    unfolding u using d ds(2) by simp
  ultimately show ?case by blast
qed

lemma idle_plan_succeeds:
  assumes "list_all idle_step steps" and "py_getitem plan ''steps'' = Inr (JArr steps)"
    and "\<And>i d w. render_error os (ExecutingStep i d) w = None"
  shows "\<exists>ds. length ds = length steps \<and>
            execute_plan os plan st =
              (Inr (True, ''All steps completed successfully''),
               st\<lparr>console := console st @ map2 ExecutingStep [1 ..< 1 + length steps] ds\<rparr>)"
  using idle_run[OF assms(1), of os 1 st] assms(2,3) by (simp add: execute_plan_def)

text \<open>
  Claim C9. The announcement of line 100 puts the description into a string that the
  console library reads as markup, and it stands before the \<^verbatim>\<open>try\<close>. For an idle step
  whose announcement the console refuses, the exception leaves \<^verbatim>\<open>execute_plan\<close>: the
  loop does not go on to the next step, and a plan that begins with such a step, be all
  its steps idle, does not return the success result.
\<close>

theorem C9_idle_step_can_raise:
  assumes "render_error os (ExecutingStep 1 d) (host st) = Some e"
    and "truthy flag = False"
  shows "execute_plan os (JObj [(''steps'', JArr (JObj [(''description'', d)] # later))]) st =
           (Inl e, st) \<and>
         execute_plan os
           (JObj [(''steps'', JArr (JObj [(''description'', d), (''is_command'', flag)] # later))]) st =
           (Inl e, st)"
  using assms by (simp add: execute_plan_def exec_step_def say_raises)

theorem C9_witness:
  "idle_step (JObj [(''description'', JStr ''list [/etc]'')]) \<and>
   execute_plan demo_os
     (JObj [(''steps'', JArr [JObj [(''description'', JStr ''list [/etc]'')]])]) fresh =
     (Inl (markup_error ''[/etc]'' ''51''), fresh)"
proof -
  have 1: "render_error demo_os (ExecutingStep 1 (JStr ''list [/etc]'')) (host fresh) =
             Some (markup_error ''[/etc]'' ''51'')"
    by (simp add: demo_os_def)
  have 2: "truthy (JBool False) = False" by simp
  from C9_idle_step_can_raise[OF 1 2, of "[]"]
  show ?thesis by simp
qed

section \<open>Exceptions raised by a step\<close>

text \<open>
  What is raised inside the \<^verbatim>\<open>try\<close> block is turned into a failure result when the
  console prints the handler's line: a step that is a dictionary with a description,
  on a host whose console prints the announcement and the handler's line, never lets an
  exception out.
\<close>

lemma exec_step_contained:
  assumes "map_of kvs ''description'' = Some d"
    and "render_error os (ExecutingStep i d) (host st) = None"
    and "\<And>x w. render_error os (StepError i (str_exn x)) w = None"
  shows "fst (exec_step os i (JObj kvs) st) \<noteq> Raised e"
  using assms by (auto simp: exec_step_def say_ok split: sum.splits prod.splits option.splits)

text \<open>
  Claim C7. The lookup of the description (line 100) stands before the \<^verbatim>\<open>try\<close>: for a
  step without a description the \<^verbatim>\<open>KeyError\<close> leaves \<^verbatim>\<open>execute_plan\<close>, on every host and
  in every state, where the claim asks for a failure result.
\<close>

theorem C7_missing_description_escapes:
  "execute_plan os
     (JObj [(''steps'', JArr [JObj [(''command'', JStr ''true''), (''is_command'', JBool True)]])]) st =
     (Inl (KeyError ''description''), st)"
  by (simp add: execute_plan_def exec_step_def)

section \<open>What the extractor selects\<close>

lemma split_from_not_Nil: "split_from sep s \<noteq> []"
  by (induction s) (auto split: list.splits)

lemma split_from_no_sep: "\<not> contains sep s \<Longrightarrow> split_from sep s = [s]"
  by (induction s) (auto split: list.splits)

lemma contains_Nil: "contains [] t"
  by (cases t) auto

lemma contains_appendI: "contains sep s \<Longrightarrow> contains sep (s @ t)"
proof (induction s)
  case Nil
  then show ?case by (simp add: contains_Nil)
next
  case (Cons c cs)
  then show ?case using prefix_prefix[of sep "c # cs" t] by auto
qed

lemma contains_iff: "contains sep s \<longleftrightarrow> (\<exists>a r. s = a @ sep @ r)"
proof (induction s)
  case Nil
  then show ?case by auto
next
  case (Cons c cs)
  show ?case
  proof
    assume "contains sep (c # cs)"
    then consider "prefix sep (c # cs)" | "contains sep cs" by auto
    then show "\<exists>a r. c # cs = a @ sep @ r"
    proof cases
      case 1
      then obtain r where "c # cs = sep @ r" by (auto simp: prefix_def)
      then have "c # cs = [] @ sep @ r" by simp
      then show ?thesis by blast
    next
      case 2
      then obtain a r where "cs = a @ sep @ r" using Cons.IH by auto
      then have "c # cs = (c # a) @ sep @ r" by simp
      then show ?thesis by blast
    qed
  next
    assume "\<exists>a r. c # cs = a @ sep @ r"
    then obtain a r where ar: "c # cs = a @ sep @ r" by auto
    show "contains sep (c # cs)"
    proof (cases a)
      case Nil
      then have "prefix sep (c # cs)" using ar by (simp add: prefix_def)
      then show ?thesis by simp
    next
      case (Cons x a')
      then have "cs = a' @ sep @ r" using ar by simp
      then show ?thesis using Cons.IH by auto
    qed
  qed
qed

lemma clear_before_no_prefix:
  assumes "sep \<noteq> []" "clear_before sep (c # a)"
  shows "\<not> prefix sep (c # a @ sep @ r)"
proof
  assume p: "prefix sep (c # a @ sep @ r)"
  have len: "length sep \<le> length (c # a @ butlast sep)" using assms(1) by simp
  have "sep = butlast sep @ [last sep]" using assms(1) by simp
  then have eq: "c # a @ sep @ r = (c # a @ butlast sep) @ (last sep # r)"
    by (metis append.assoc append_Cons append_Nil)
  have "prefix sep ((c # a @ butlast sep) @ (last sep # r))" using p unfolding eq .
  then have "prefix sep (c # a @ butlast sep)"
    using len by (metis prefix_length_prefix prefixI)
  then have "contains sep ((c # a) @ butlast sep)" by simp
  then show False using assms(2) by (simp add: clear_before_def)
qed

lemma clear_before_tl: "clear_before sep (c # a) \<Longrightarrow> clear_before sep a"
  by (simp add: clear_before_def)

lemma split_first:
  "sep \<noteq> [] \<Longrightarrow> clear_before sep a \<Longrightarrow> split_from sep (a @ sep @ r) = a # split_from sep r"
proof (induction a)
  case Nil
  then obtain x xs where "sep = x # xs" by (cases sep) auto
  then show ?case by (simp)
next
  case (Cons c a)
  have np: "\<not> prefix sep (c # a @ sep @ r)" using clear_before_no_prefix[OF Cons.prems] .
  have "split_from sep (a @ sep @ r) = a # split_from sep r"
    using Cons.IH[OF Cons.prems(1) clear_before_tl[OF Cons.prems(2)]] .
  then show ?case using np by simp
qed


lemma contains_length: "contains sep s \<Longrightarrow> length sep \<le> length s"
  by (auto simp: contains_iff)

lemma contains_prependI: "contains sep t \<Longrightarrow> contains sep (a @ t)"
  by (metis append.assoc contains_iff)

lemma clear_before_Nil: "sep \<noteq> [] \<Longrightarrow> clear_before sep []"
  using contains_length[of sep "butlast sep"] by (cases sep) (auto simp: clear_before_def)

lemma clear_before_drop: "clear_before sep (a @ u) \<Longrightarrow> clear_before sep u"
  using contains_prependI[of sep "u @ butlast sep" a] by (auto simp: clear_before_def)

lemma clear_before_no_sep: "clear_before sep a \<Longrightarrow> \<not> contains sep a"
  using contains_appendI[of sep a "butlast sep"] by (auto simp: clear_before_def)

lemma first_occurrence:
  "sep \<noteq> [] \<Longrightarrow> contains sep s \<Longrightarrow> \<exists>a r. s = a @ sep @ r \<and> clear_before sep a"
proof (induction s)
  case Nil
  then show ?case by simp
next
  case (Cons c cs)
  show ?case
  proof (cases "prefix sep (c # cs)")
    case True
    then obtain r where "c # cs = [] @ sep @ r" by (auto simp: prefix_def)
    then show ?thesis using clear_before_Nil[OF Cons.prems(1)] by blast
  next
    case False
    then have "contains sep cs" using Cons.prems(2) by simp
    then obtain a r where ar: "cs = a @ sep @ r" "clear_before sep a"
      using Cons.IH[OF Cons.prems(1)] by blast
    have "\<not> prefix sep (c # a @ butlast sep)"
    proof
      assume "prefix sep (c # a @ butlast sep)"
      then have p: "prefix sep ((c # a @ butlast sep) @ (last sep # r))" by (rule prefix_prefix)
      have "sep = butlast sep @ [last sep]" using Cons.prems(1) by simp
      then have e: "(c # a @ butlast sep) @ (last sep # r) = c # a @ sep @ r"
        by (metis append.assoc append_Cons append_Nil)
      have "prefix sep (c # a @ sep @ r)" using p unfolding e .
      then show False using False ar(1) by simp
    qed
    then have "clear_before sep (c # a)" using ar(2) by (simp add: clear_before_def)
    moreover have "c # cs = (c # a) @ sep @ r" using ar(1) by simp
    ultimately show ?thesis by blast
  qed
qed

lemma split_from_contains_length:
  assumes "sep \<noteq> []" "contains sep s"
  shows "2 \<le> length (split_from sep s)"
proof -
  obtain a r where "s = a @ sep @ r" "clear_before sep a"
    using first_occurrence[OF assms] by blast
  then have "split_from sep s = a # split_from sep r"
    using split_first[OF assms(1)] by simp
  then show ?thesis using split_from_not_Nil[of sep r] by (cases "split_from sep r") auto
qed

lemma first_not_before:
  assumes "sep \<noteq> []" "clear_before sep d" "d @ sep @ post = a @ sep @ r"
  shows "\<exists>us. a = d @ us"
proof -
  from iffD1[OF append_eq_append_conv2 assms(3)] obtain us where
    "(d = a @ us \<and> us @ sep @ post = sep @ r) \<or> (d @ us = a \<and> sep @ post = us @ sep @ r)"
    by blast
  then show ?thesis
  proof
    assume h: "d = a @ us \<and> us @ sep @ post = sep @ r"
    show ?thesis
    proof (cases us)
      case Nil
      then show ?thesis using h by simp
    next
      case (Cons c u)
      then have "clear_before sep (c # u)" using assms(2) h clear_before_drop by blast
      then have "\<not> prefix sep (c # u @ sep @ post)" by (rule clear_before_no_prefix[OF assms(1)])
      moreover have "prefix sep (c # u @ sep @ post)" using h Cons by (simp add: prefix_def)
      ultimately show ?thesis by simp
    qed
  next
    assume "d @ us = a \<and> sep @ post = us @ sep @ r"
    then show ?thesis by auto
  qed
qed

lemma contains_json_fence: "contains json_fence s \<Longrightarrow> contains fence s"
proof -
  assume "contains json_fence s"
  then obtain a r where "s = a @ json_fence @ r" by (auto simp: contains_iff)
  then have "s = a @ fence @ (''json'' @ r)" by (simp add: json_fence_def fence_def)
  then show ?thesis unfolding contains_iff by blast
qed

lemma hd_after_tag:
  assumes d: "clear_before fence d" and post: "\<not> prefix ''`'' post"
  shows "py_index (split_from fence (hd (split_from json_fence (d @ fence @ post)))) 0 = Inr d"
proof -
  have F: "fence \<noteq> []" and J: "json_fence \<noteq> []" by (simp_all add: fence_def json_fence_def)
  let ?y = "d @ fence @ post"
  have hd_d: "hd (split_from fence ?y) = d" using split_first[OF F d] by simp
  have "hd (split_from fence (hd (split_from json_fence ?y))) = d"
  proof (cases "contains json_fence ?y")
    case False
    then show ?thesis using hd_d by (simp add: split_from_no_sep)
  next
    case True
    then obtain a r where ar: "?y = a @ json_fence @ r" "clear_before json_fence a"
      using first_occurrence[OF J] by blast
    then have X: "hd (split_from json_fence ?y) = a" using split_first[OF J] by simp
    have "?y = a @ fence @ (''json'' @ r)" using ar(1) by (simp add: json_fence_def fence_def)
    then obtain us where us: "a = d @ us" using first_not_before[OF F d] by blast
    then have eq: "fence @ post = us @ json_fence @ r" using ar(1) by simp
    have "hd (split_from fence a) = d"
    proof (cases us)
      case Nil
      then show ?thesis using us clear_before_no_sep[OF d] by (simp add: split_from_no_sep)
    next
      case (Cons x1 u1)
      show ?thesis
      proof (cases u1)
        case Nil
        then show ?thesis using eq Cons post by (simp add: fence_def json_fence_def)
      next
        case (Cons x2 u2)
        note c2 = this
        show ?thesis
        proof (cases u2)
          case Nil
          then show ?thesis using eq c2 \<open>us = x1 # u1\<close> post by (simp add: fence_def json_fence_def)
        next
          case (Cons x3 u3)
          then have "us = fence @ u3" using eq c2 \<open>us = x1 # u1\<close> by (auto simp: fence_def)
          then have "a = d @ fence @ u3" using us by simp
          then show ?thesis using split_first[OF F d] by simp
        qed
      qed
    qed
    then show ?thesis using X by simp
  qed
  then show ?thesis using split_from_not_Nil[of fence "hd (split_from json_fence ?y)"]
    by (simp add: py_index_def hd_conv_nth)
qed

lemma select_tagged:
  assumes "clear_before json_fence pre" "clear_before fence d" "\<not> prefix ''`'' post"
  shows "select_text (pre @ json_fence @ d @ fence @ post) = Inr d"
proof -
  have J: "json_fence \<noteq> []" by (simp add: json_fence_def)
  let ?t = "pre @ json_fence @ d @ fence @ post"
  have c: "contains json_fence ?t" unfolding contains_iff by blast
  have s: "split_from json_fence ?t = pre # split_from json_fence (d @ fence @ post)"
    using split_first[OF J assms(1)] by simp
  have "py_index (split_from json_fence ?t) 1 = Inr (hd (split_from json_fence (d @ fence @ post)))"
    using split_from_not_Nil[of json_fence "d @ fence @ post"]
    by (simp add: s py_index_def hd_conv_nth)
  then show ?thesis using c hd_after_tag[OF assms(2,3)] by (simp add: select_text_def)
qed

lemma select_generic:
  assumes "clear_before fence pre" "clear_before fence d"
    and "\<not> contains json_fence (pre @ fence @ d @ fence @ post)"
  shows "select_text (pre @ fence @ d @ fence @ post) = Inr d"
proof -
  have F: "fence \<noteq> []" by (simp add: fence_def)
  let ?t = "pre @ fence @ d @ fence @ post"
  have c: "contains fence ?t" unfolding contains_iff by blast
  have "split_from fence ?t = pre # d # split_from fence post"
    using split_first[OF F assms(1)] split_first[OF F assms(2)] by simp
  then have "py_index (split_from fence ?t) 1 = Inr d" by (simp add: py_index_def)
  moreover have "py_index (split_from fence d) 0 = Inr d"
    using clear_before_no_sep[OF assms(2)] by (simp add: split_from_no_sep py_index_def)
  ultimately show ?thesis using c assms(3) by (simp add: select_text_def)
qed

lemma select_raw: "\<not> contains fence d \<Longrightarrow> select_text d = Inr d"
  using contains_json_fence[of d] by (auto simp: select_text_def)

lemma select_text_total: "\<exists>s. select_text t = Inr s"
proof -
  have F: "fence \<noteq> []" and J: "json_fence \<noteq> []" by (simp_all add: fence_def json_fence_def)
  have zero: "\<And>x. \<exists>s. py_index (split_from fence x) 0 = Inr s"
    using split_from_not_Nil by (simp add: py_index_def)
  show ?thesis
  proof (cases "contains json_fence t")
    case True
    then have "py_index (split_from json_fence t) 1 = Inr (split_from json_fence t ! 1)"
      using split_from_contains_length[OF J] by (fastforce simp: py_index_def)
    then show ?thesis using True zero by (simp add: select_text_def)
  next
    case False
    show ?thesis
    proof (cases "contains fence t")
      case True
      then have "py_index (split_from fence t) 1 = Inr (split_from fence t ! 1)"
        using split_from_contains_length[OF F] by (fastforce simp: py_index_def)
      then show ?thesis using True False zero by (simp add: select_text_def)
    next
      case False
      then show ?thesis using \<open>\<not> contains json_fence t\<close> by (simp add: select_text_def)
    qed
  qed
qed

text \<open>
  Claim C3, as the code has it. Let \<open>d\<close> be a document in which no fence marker begins:
  it holds no three backticks in a row and does not end in a backtick. Then the
  extractor hands \<open>d\<close> itself to the decoder, and so returns the same plan, in each of
  three forms of the response: \<open>d\<close> after a fence tagged \<^verbatim>\<open>json\<close> and before a closing
  fence, where the text before the tag holds no tagged fence (it may hold untagged ones)
  and the text after the closing fence does not start with a backtick; \<open>d\<close> between two
  untagged fences, where the response holds no tagged fence and no fence begins in the
  text before the first one; and \<open>d\<close> alone.
\<close>

theorem C3_same_plan_in_every_form:
  assumes "clear_before fence d"
    and "clear_before json_fence pre1" and "\<not> prefix ''`'' post1"
    and "clear_before fence pre2"
    and "\<not> contains json_fence (pre2 @ fence @ d @ fence @ post2)"
  shows "parse_plan loads (pre1 @ json_fence @ d @ fence @ post1) = Inr (loads d) \<and>
         parse_plan loads (pre2 @ fence @ d @ fence @ post2) = Inr (loads d) \<and>
         parse_plan loads d = Inr (loads d)"
  using select_tagged[OF assms(2,1,3)] select_generic[OF assms(4,1,5)]
    select_raw[OF clear_before_no_sep[OF assms(1)]]
  by (simp add: parse_plan_def)

theorem C3_witness:
  \<open>parse_plan json_loads
     ''A sketch: ```{"steps": 0}``` The plan: ```json{"plan_description": "p", "steps": []}``` Done.''
     = Inr (Decoded (JObj [(''plan_description'', JStr ''p''), (''steps'', JArr [])])) \<and>
   parse_plan json_loads ''Plan: ```{"plan_description": "p", "steps": []}```''
     = Inr (Decoded (JObj [(''plan_description'', JStr ''p''), (''steps'', JArr [])])) \<and>
   parse_plan json_loads ''{"plan_description": "p", "steps": []}''
     = Inr (Decoded (JObj [(''plan_description'', JStr ''p''), (''steps'', JArr [])]))\<close>
proof -
  let ?d = \<open>''{"plan_description": "p", "steps": []}''\<close>
  have 1: "clear_before fence ?d" by (simp add: clear_before_def fence_def)
  have 2: \<open>clear_before json_fence ''A sketch: ```{"steps": 0}``` The plan: ''\<close>
    by (simp add: clear_before_def json_fence_def)
  have 3: "\<not> prefix ''`'' '' Done.''" by simp
  have 4: "clear_before fence ''Plan: ''" by (simp add: clear_before_def fence_def)
  have 5: "\<not> contains json_fence (''Plan: '' @ fence @ ?d @ fence @ [])"
    by (simp add: json_fence_def fence_def)
  have 6: \<open>json_loads ?d = Decoded (JObj [(''plan_description'', JStr ''p''), (''steps'', JArr [])])\<close>
    by (simp add: decode_defs)
  from C3_same_plan_in_every_form[OF 1 2 3 4 5, of json_loads]
  show ?thesis unfolding 6 by (simp add: fence_def json_fence_def)
qed

text \<open>
  The claim as first stated speaks of every valid document. The plan below is valid and
  its description holds two runs of three backticks. Sent raw, it is cut at them and
  the extractor returns the empty list that stands between them; sent in a tagged
  fence, it is cut at the first run and fails to decode. Neither result is the plan,
  and the two differ.
\<close>

theorem C3_counterexample:
  \<open>json_loads ''{"plan_description": "```[]```", "steps": []}''
     = Decoded (JObj [(''plan_description'', JStr ''```[]```''), (''steps'', JArr [])]) \<and>
   parse_plan json_loads ''{"plan_description": "```[]```", "steps": []}''
     = Inr (Decoded (JArr [])) \<and>
   parse_plan json_loads ''```json{"plan_description": "```[]```", "steps": []}```''
     = Inr DecodeError\<close>
  by (simp add: parse_plan_def select_defs decode_defs)

section \<open>What the extractor returns\<close>

text \<open>
  Claim C6, as the code has it. \<^verbatim>\<open>get_plan\<close> and \<^verbatim>\<open>refine_plan\<close> check nothing about the
  decoded value: when the service answers with a text and the decoder returns a value
  for the text selected from it, that value is the plan returned, whatever its steps
  hold. The reply is consumed, the request is sent, and nothing is printed.
\<close>

theorem C6_extractor_returns_what_decodes:
  assumes "llm s = Reply text # rest"
    and "select_text text = Inr selected" and "loads selected = Decoded plan"
  shows "get_plan loads os task s =
           (Val plan, s\<lparr>llm := rest, requests := requests s @ [PlanRequest task]\<rparr>) \<and>
         refine_plan loads os task details s =
           (Val plan, s\<lparr>llm := rest, requests := requests s @ [RefineRequest task details]\<rparr>)"
  using assms
  by (simp add: get_plan_def refine_plan_def generate_content_def decode_reply_def parse_plan_def
      Let_def)

theorem C6_witness:
  \<open>get_plan json_loads demo_os ''task''
     \<lparr>machine = fresh, plan_var = JNull,
      llm = [Reply ''```json{"plan_description": "p", "steps": [{"is_command": true}]}```''],
      requests = [], confirms = [], inputs = []\<rparr> =
     (Val (JObj [(''plan_description'', JStr ''p''),
                 (''steps'', JArr [JObj [(''is_command'', JBool True)]])]),
      \<lparr>machine = fresh, plan_var = JNull, llm = [], requests = [PlanRequest ''task''],
       confirms = [], inputs = []\<rparr>)\<close>
proof -
  let ?s = \<open>\<lparr>machine = fresh, plan_var = JNull,
      llm = [Reply ''```json{"plan_description": "p", "steps": [{"is_command": true}]}```''],
      requests = [], confirms = [], inputs = []\<rparr>\<close>
  have 1: \<open>llm ?s = Reply ''```json{"plan_description": "p", "steps": [{"is_command": true}]}```'' # []\<close>
    by simp
  have 2: \<open>select_text ''```json{"plan_description": "p", "steps": [{"is_command": true}]}```''
           = Inr ''{"plan_description": "p", "steps": [{"is_command": true}]}''\<close>
    by (simp add: select_defs)
  have 3: \<open>json_loads ''{"plan_description": "p", "steps": [{"is_command": true}]}'' =
            Decoded (JObj [(''plan_description'', JStr ''p''),
                           (''steps'', JArr [JObj [(''is_command'', JBool True)]])])\<close>
    by (simp add: decode_defs)
  from C6_extractor_returns_what_decodes[where s = "?s" and loads = json_loads and os = demo_os
      and task = "''task''" and details = "[]", OF 1 2 3]
  show ?thesis by simp
qed

text \<open>
  The claim as first stated asks for a failure when a step lacks \<^verbatim>\<open>is_command\<close> or a field
  of its variant. The plan of the response below has a step with a description only and
  a command step without a command; \<^verbatim>\<open>get_plan\<close> returns it as it was decoded.
\<close>

theorem C6_counterexample:
  \<open>get_plan json_loads demo_os ''task''
     \<lparr>machine = fresh, plan_var = JNull,
      llm = [Reply ''{"plan_description": "p", "steps": [{"description": "d"}, {"description": "c", "is_command": true}]}''],
      requests = [], confirms = [], inputs = []\<rparr> =
     (Val (JObj [(''plan_description'', JStr ''p''),
                 (''steps'', JArr [JObj [(''description'', JStr ''d'')],
                                  JObj [(''description'', JStr ''c''), (''is_command'', JBool True)]])]),
      \<lparr>machine = fresh, plan_var = JNull, llm = [], requests = [PlanRequest ''task''],
       confirms = [], inputs = []\<rparr>)\<close>
  by (simp add: get_plan_def generate_content_def decode_reply_def parse_plan_def select_defs
      decode_defs)

text \<open>
  When the decoder does not return a value, the handler of \<^verbatim>\<open>JSONDecodeError\<close> prints
  two lines and returns no plan, unless the console refuses one of them; whatever else
  the decoder raises leaves the function.
\<close>

lemma get_plan_without_value:
  assumes "llm s = Reply text # rest" and "select_text text = Inr selected"
  shows "loads selected = DecodeError \<Longrightarrow>
           prints os (host (machine s)) [ParseError text, RawResponse text] \<Longrightarrow>
           fst (get_plan loads os task s) = Val JNull"
    and "loads selected = DecodeError \<Longrightarrow>
           render_error os (ParseError text) (host (machine s)) = None \<Longrightarrow>
           render_error os (RawResponse text) (host (machine s)) = Some e \<Longrightarrow>
           fst (get_plan loads os task s) = Exc e"
    and "loads selected = DecoderRaised e \<Longrightarrow> fst (get_plan loads os task s) = Exc e"
  using assms
  by (simp_all add: get_plan_def generate_content_def decode_reply_def parse_plan_def Let_def
      tell_def say_def)

section \<open>Which fenced block is used\<close>

text \<open>
  Claim C8, as the code has it. Let \<open>d1\<close> and \<open>d2\<close> be the contents of two blocks, in
  which no fence marker begins. The extractor hands one block to the decoder, and
  nothing else of the response:
  \<^item> when the response has a \<^verbatim>\<open>json\<close> tag, the block opened by the first \<^verbatim>\<open>json\<close> tag,
    whatever stands after the closing fence of that block (other blocks, tagged or
    not), provided that text does not start with a backtick;
  \<^item> when the response has no \<^verbatim>\<open>json\<close> tag, the first fenced block, whatever stands
    after its closing fence;
  \<^item> in particular, when an untagged block \<open>d1\<close> stands first and a block \<open>d2\<close> tagged
    \<^verbatim>\<open>json\<close> after it, the second block \<open>d2\<close>.
\<close>

theorem C8_which_block_is_used:
  assumes "clear_before fence d1" and "clear_before fence d2"
    and "clear_before json_fence before" and "\<not> prefix ''`'' rest"
    and "clear_before fence before'"
    and "\<not> contains json_fence (before' @ fence @ d1 @ fence @ rest')"
    and "clear_before json_fence (before'' @ fence @ d1 @ fence @ between)"
  shows "parse_plan loads (before @ json_fence @ d1 @ fence @ rest) = Inr (loads d1) \<and>
         parse_plan loads (before' @ fence @ d1 @ fence @ rest') = Inr (loads d1) \<and>
         parse_plan loads (before'' @ fence @ d1 @ fence @ between @ json_fence @ d2 @ fence @ rest)
           = Inr (loads d2)"
  using select_tagged[OF assms(3,1,4)] select_generic[OF assms(5,1,6)]
    select_tagged[OF assms(7,2,4)]
  by (simp add: parse_plan_def)

theorem C8_witness:
  \<open>parse_plan json_loads
     ''```json{"plan_description": "first", "steps": []}``` ```json{"plan_description": "sentinel", "steps": []}```''
   = Inr (Decoded (JObj [(''plan_description'', JStr ''first''), (''steps'', JArr [])])) \<and>
   parse_plan json_loads
     ''```{"plan_description": "first", "steps": []}``` ```{"plan_description": "sentinel", "steps": []}```''
   = Inr (Decoded (JObj [(''plan_description'', JStr ''first''), (''steps'', JArr [])])) \<and>
   parse_plan json_loads
     ''Draft: ```{"plan_description": "first", "steps": []}``` Final: ```json{"plan_description": "second", "steps": []}``` ```json{"plan_description": "sentinel", "steps": []}```''
   = Inr (Decoded (JObj [(''plan_description'', JStr ''second''), (''steps'', JArr [])]))\<close>
proof -
  let ?d1 = \<open>''{"plan_description": "first", "steps": []}''\<close>
  let ?d2 = \<open>''{"plan_description": "second", "steps": []}''\<close>
  let ?rest = \<open>'' ```json{"plan_description": "sentinel", "steps": []}```''\<close>
  let ?rest' = \<open>'' ```{"plan_description": "sentinel", "steps": []}```''\<close>
  have 1: "clear_before fence ?d1" by (simp add: clear_before_def fence_def)
  have 2: "clear_before fence ?d2" by (simp add: clear_before_def fence_def)
  have 3: "clear_before json_fence []" by (simp add: clear_before_def json_fence_def)
  have 4: "\<not> prefix ''`'' ?rest" by simp
  have 5: "clear_before fence []" by (simp add: clear_before_def fence_def)
  have 6: "\<not> contains json_fence ([] @ fence @ ?d1 @ fence @ ?rest')"
    by (simp add: json_fence_def fence_def)
  have 7: "clear_before json_fence (''Draft: '' @ fence @ ?d1 @ fence @ '' Final: '')"
    by (simp add: clear_before_def json_fence_def fence_def)
  have 8: \<open>json_loads ?d1 = Decoded (JObj [(''plan_description'', JStr ''first''), (''steps'', JArr [])])\<close>
    by (simp add: decode_defs)
  have 9: \<open>json_loads ?d2 = Decoded (JObj [(''plan_description'', JStr ''second''), (''steps'', JArr [])])\<close>
    by (simp add: decode_defs)
  from C8_which_block_is_used[OF 1 2 3 4 5 6 7, of json_loads]
  show ?thesis unfolding 8 9 by (simp add: fence_def json_fence_def)
qed

text \<open>
  The claim as first stated excludes every value of a second block. When the first
  block is untagged and the second is tagged \<^verbatim>\<open>json\<close>, the second block is the one
  decoded, and the value of the first block does not appear in the plan.
\<close>

theorem C8_counterexample:
  \<open>parse_plan json_loads
     ''```{"plan_description": "first", "steps": []}``` ```json{"plan_description": "sentinel", "steps": []}```''
   = Inr (Decoded (JObj [(''plan_description'', JStr ''sentinel''), (''steps'', JArr [])]))\<close>
  by (simp add: parse_plan_def select_defs decode_defs)

section \<open>The session after a refinement\<close>

lemmas session_defs =
  iteration_def execute_and_judge_def refine_def get_plan_def refine_plan_def decode_reply_def
  generate_content_def ask_def read_line_def tell_def display_plan_def show_step_def
  execute_plan_def

lemma first_parsed:
  "parse_plan json_loads first_reply =
     Inr (Decoded (JObj [(''plan_description'', JStr ''first''), (''steps'', JArr [failing_step])]))"
  by (simp add: first_reply_def failing_step_def parse_plan_def select_defs decode_defs)

lemma refined_parsed:
  "parse_plan json_loads refined_reply =
     Inr (Decoded (JObj [(''plan_description'', JStr ''refined''), (''steps'', JArr [])]))"
  by (simp add: refined_reply_def parse_plan_def select_defs decode_defs)

lemma fresh_parsed:
  "parse_plan json_loads fresh_reply =
     Inr (Decoded (JObj [(''plan_description'', JStr ''fresh''), (''steps'', JArr [])]))"
  by (simp add: fresh_reply_def parse_plan_def select_defs decode_defs)

lemma first_turn:
  "iteration json_loads demo_os ''task'' demo_session = (None, after_refinement)"
  by (simp add: session_defs exec_defs and_next_def first_parsed refined_parsed
      demo_session_def after_refinement_def fresh_def failing_step_def demo_os_def)

text \<open>
  Claim C2. In the example session the first plan fails, the refinement call returns
  the plan described as \<^verbatim>\<open>refined\<close>, and the loop goes round: it sends a new plan request
  and presents the plan described as \<^verbatim>\<open>fresh\<close>. The refined plan is held by the variable
  for a moment and is never presented or executed, where the claim asks for it to be
  the plan the operator sees next.
\<close>

theorem C2_refined_plan_is_discarded:
  "main_loop json_loads demo_os ''task'' demo_session =
     (Aborted PlanRejected,
      \<lparr>machine = \<lparr>host = \<lparr>files = Map.empty\<rparr>,
         console = [Notice ''Generating plan using Gemini AI...'', TaskPlan (JStr ''first''),
                    ShowStep 1 (JStr ''fail''), ShowCommand (JStr ''false''),
                    Notice ''Executing plan...'', ExecutingStep 1 (JStr ''fail''),
                    ExecutingCommand (JStr ''false''), CommandError ''boom'', CommandFailed,
                    TaskFailed ''Command failed: boom'',
                    Notice ''Refining the plan based on error...'',
                    Notice ''Generating plan using Gemini AI...'', TaskPlan (JStr ''fresh''),
                    Notice ''Plan rejected. Exiting.'']\<rparr>,
       plan_var = JObj [(''plan_description'', JStr ''fresh''), (''steps'', JArr [])],
       llm = [],
       requests = [PlanRequest ''task'', RefineRequest ''task'' ''Command failed: boom'',
                   PlanRequest ''task''],
       confirms = [], inputs = []\<rparr>)"
proof -
  have second_turn:
    "iteration json_loads demo_os ''task'' after_refinement =
       (Some (Aborted PlanRejected),
        \<lparr>machine = \<lparr>host = \<lparr>files = Map.empty\<rparr>,
         console = [Notice ''Generating plan using Gemini AI...'', TaskPlan (JStr ''first''),
                    ShowStep 1 (JStr ''fail''), ShowCommand (JStr ''false''),
                    Notice ''Executing plan...'', ExecutingStep 1 (JStr ''fail''),
                    ExecutingCommand (JStr ''false''), CommandError ''boom'', CommandFailed,
                    TaskFailed ''Command failed: boom'',
                    Notice ''Refining the plan based on error...'',
                    Notice ''Generating plan using Gemini AI...'', TaskPlan (JStr ''fresh''),
                    Notice ''Plan rejected. Exiting.'']\<rparr>,
       plan_var = JObj [(''plan_description'', JStr ''fresh''), (''steps'', JArr [])],
       llm = [],
       requests = [PlanRequest ''task'', RefineRequest ''task'' ''Command failed: boom'',
                   PlanRequest ''task''],
       confirms = [], inputs = []\<rparr>)"
    by (simp add: session_defs exec_defs fresh_parsed after_refinement_def demo_os_def)
  show ?thesis
    by (subst main_loop.simps, simp add: first_turn, subst main_loop.simps, simp add: second_turn)
qed

text \<open>
  The other half of the transition is as the specification has it: when the refinement
  call returns no plan (\<^verbatim>\<open>None\<close> after a decoding error, or any value that counts as
  false), the turn ends the session.
\<close>

lemma refine_without_plan_aborts:
  "refine_plan loads os task details s = (Val plan, s') \<Longrightarrow> \<not> truthy plan \<Longrightarrow>
     fst (refine loads os task details s) =
       (case render_error os (Notice ''Failed to refine the plan. Please try again.'')
               (host (machine s')) of
          None \<Rightarrow> Some (Aborted NoRefinedPlan)
        | Some e \<Rightarrow> Some (Crashed e))"
  by (simp add: refine_def tell_def say_def split: option.splits)

text \<open>
  This holds of every session: a turn of the loop does not look at the value the
  variable \<^verbatim>\<open>plan\<close> has when the turn begins.
\<close>

lemma tell_plan_var:
  "tell os e (s\<lparr>plan_var := p\<rparr>) = (case tell os e s of (r, s') \<Rightarrow> (r, s'\<lparr>plan_var := p\<rparr>))"
  by (simp add: tell_def split: prod.splits)

lemma generate_content_plan_var:
  "generate_content rq (s\<lparr>plan_var := p\<rparr>) =
     (case generate_content rq s of (r, s') \<Rightarrow> (r, s'\<lparr>plan_var := p\<rparr>))"
  by (simp add: generate_content_def Let_def split: list.splits reply.splits)

lemma decode_reply_plan_var:
  "decode_reply loads os failed text (s\<lparr>plan_var := p\<rparr>) =
     (case decode_reply loads os failed text s of (r, s') \<Rightarrow> (r, s'\<lparr>plan_var := p\<rparr>))"
  by (simp add: decode_reply_def tell_plan_var
      split: prod.splits sum.splits decoded.splits option.splits)

lemma get_plan_plan_var:
  "get_plan loads os task (s\<lparr>plan_var := p\<rparr>) =
     (case get_plan loads os task s of (r, s') \<Rightarrow> (r, s'\<lparr>plan_var := p\<rparr>))"
  by (simp add: get_plan_def generate_content_plan_var decode_reply_plan_var
      split: prod.splits res.splits)

lemma iteration_ignores_plan_var:
  "fst (iteration loads os task (s\<lparr>plan_var := p\<rparr>)) = fst (iteration loads os task s) \<and>
   machine (snd (iteration loads os task (s\<lparr>plan_var := p\<rparr>))) =
     machine (snd (iteration loads os task s)) \<and>
   requests (snd (iteration loads os task (s\<lparr>plan_var := p\<rparr>))) =
     requests (snd (iteration loads os task s))"
proof -
  let ?n = "Notice ''Generating plan using Gemini AI...''"
  obtain a s0 where t: "tell os ?n s = (a, s0)" by (cases "tell os ?n s")
  then have t': "tell os ?n (s\<lparr>plan_var := p\<rparr>) = (a, s0\<lparr>plan_var := p\<rparr>)"
    by (simp add: tell_plan_var)
  show ?thesis
  proof (cases a)
    case (Some e)
    then show ?thesis using t t' by (simp add: iteration_def)
  next
    case None
    obtain r s' where g: "get_plan loads os task s0 = (r, s')"
      by (cases "get_plan loads os task s0")
    then have g': "get_plan loads os task (s0\<lparr>plan_var := p\<rparr>) = (r, s'\<lparr>plan_var := p\<rparr>)"
      by (simp add: get_plan_plan_var)
    show ?thesis using None t t' by (cases r) (simp_all add: iteration_def g g')
  qed
qed

end
